theory Spec2Isabelle
  imports Complex_Main "HOL-Library.Char_ord" "HOL-Library.List_Lexorder"
begin

section \<open>Python floats\<close>

text \<open>
  A Python / numpy float is either a finite number, one of the two infinities, or NaN.
  Finite arithmetic is exact (rounding and overflow are not modelled) and zero carries
  no sign (it divides like \<open>+0.0\<close>).  The special values follow IEEE 754: NaN
  absorbs, \<open>inf - inf\<close>, \<open>0 * inf\<close>, \<open>inf / inf\<close> and \<open>0 / 0\<close> are NaN and every
  comparison with NaN is false.  Division is numpy's \<open>true_divide\<close>, which does not
  raise on a zero divisor.
\<close>

datatype pyfloat = Fin real | PInf | NInf | NaN

datatype py_error = TypeError | ValueError

fun of_opt :: "real option \<Rightarrow> pyfloat" where
  "of_opt None = NaN"
| "of_opt (Some r) = Fin r"

fun fl_neg :: "pyfloat \<Rightarrow> pyfloat" where
  "fl_neg (Fin a) = Fin (- a)"
| "fl_neg PInf = NInf"
| "fl_neg NInf = PInf"
| "fl_neg NaN = NaN"

fun fl_abs :: "pyfloat \<Rightarrow> pyfloat" where
  "fl_abs (Fin a) = Fin \<bar>a\<bar>"
| "fl_abs PInf = PInf"
| "fl_abs NInf = PInf"
| "fl_abs NaN = NaN"

fun fl_add :: "pyfloat \<Rightarrow> pyfloat \<Rightarrow> pyfloat" where
  "fl_add NaN y = NaN"
| "fl_add x NaN = NaN"
| "fl_add (Fin a) (Fin b) = Fin (a + b)"
| "fl_add PInf NInf = NaN"
| "fl_add NInf PInf = NaN"
| "fl_add PInf y = PInf"
| "fl_add NInf y = NInf"
| "fl_add (Fin a) y = y"

definition fl_sub :: "pyfloat \<Rightarrow> pyfloat \<Rightarrow> pyfloat" where
  "fl_sub x y = fl_add x (fl_neg y)"

text \<open>The sign of a float that is not NaN: \<open>-1\<close>, \<open>0\<close> or \<open>1\<close>.\<close>

fun fl_sgn :: "pyfloat \<Rightarrow> real" where
  "fl_sgn (Fin a) = sgn a"
| "fl_sgn PInf = 1"
| "fl_sgn NInf = - 1"
| "fl_sgn NaN = 0"

definition signed_inf :: "real \<Rightarrow> pyfloat" where
  "signed_inf s = (if s = 0 then NaN else if 0 < s then PInf else NInf)"

fun fl_mul :: "pyfloat \<Rightarrow> pyfloat \<Rightarrow> pyfloat" where
  "fl_mul NaN y = NaN"
| "fl_mul x NaN = NaN"
| "fl_mul (Fin a) (Fin b) = Fin (a * b)"
| "fl_mul x y = signed_inf (fl_sgn x * fl_sgn y)"

fun fl_div :: "pyfloat \<Rightarrow> pyfloat \<Rightarrow> pyfloat" where
  "fl_div NaN y = NaN"
| "fl_div x NaN = NaN"
| "fl_div (Fin a) (Fin b) = (if b = 0 then signed_inf (sgn a) else Fin (a / b))"
| "fl_div (Fin a) y = Fin 0"
| "fl_div x (Fin b) = signed_inf (fl_sgn x * (if b < 0 then - 1 else 1))"
| "fl_div x y = NaN"

definition fl_sq :: "pyfloat \<Rightarrow> pyfloat" where
  "fl_sq x = fl_mul x x"

fun fl_sqrt :: "pyfloat \<Rightarrow> pyfloat" where
  "fl_sqrt (Fin a) = (if a < 0 then NaN else Fin (sqrt a))"
| "fl_sqrt PInf = PInf"
| "fl_sqrt NInf = NaN"
| "fl_sqrt NaN = NaN"

fun fl_lt :: "pyfloat \<Rightarrow> pyfloat \<Rightarrow> bool" where
  "fl_lt NaN y = False"
| "fl_lt x NaN = False"
| "fl_lt (Fin a) (Fin b) = (a < b)"
| "fl_lt x NInf = False"
| "fl_lt PInf y = False"
| "fl_lt NInf y = True"
| "fl_lt (Fin a) PInf = True"

fun fl_le :: "pyfloat \<Rightarrow> pyfloat \<Rightarrow> bool" where
  "fl_le NaN y = False"
| "fl_le x NaN = False"
| "fl_le (Fin a) (Fin b) = (a \<le> b)"
| "fl_le NInf y = True"
| "fl_le x PInf = True"
| "fl_le PInf y = False"
| "fl_le (Fin a) NInf = False"

text \<open>Python's \<open>==\<close> on floats: NaN is not equal to itself.\<close>

definition fl_eq :: "pyfloat \<Rightarrow> pyfloat \<Rightarrow> bool" where
  "fl_eq x y = (x \<noteq> NaN \<and> x = y)"

text \<open>\<open>np.sum\<close>, and \<open>np.sign\<close> of one entry.\<close>

definition fl_sum :: "pyfloat list \<Rightarrow> pyfloat" where
  "fl_sum xs = foldr fl_add xs (Fin 0)"

fun np_sign :: "pyfloat \<Rightarrow> pyfloat" where
  "np_sign (Fin a) = Fin (sgn a)"
| "np_sign PInf = Fin 1"
| "np_sign NInf = Fin (- 1)"
| "np_sign NaN = NaN"

text \<open>
  \<open>np.clip(x, lo, hi)\<close> is \<open>minimum(maximum(x, lo), hi)\<close>; a NaN argument stays NaN.
\<close>

definition np_clip :: "pyfloat \<Rightarrow> pyfloat \<Rightarrow> pyfloat \<Rightarrow> pyfloat" where
  "np_clip x lo hi =
     (if x = NaN then NaN else if fl_lt x lo then lo else if fl_lt hi x then hi else x)"

text \<open>
  Python's builtin \<open>max\<close>: the first item is kept unless a later one compares strictly
  greater.  \<open>py_max\<close> is only applied to non-empty lists.
\<close>

definition py_max2 :: "pyfloat \<Rightarrow> pyfloat \<Rightarrow> pyfloat" where
  "py_max2 a b = (if fl_lt a b then b else a)"

definition py_max :: "pyfloat list \<Rightarrow> pyfloat" where
  "py_max xs = foldl py_max2 (hd xs) (tl xs)"

text \<open>
  \<open>Series.min()\<close> and \<open>Series.max()\<close> of a column from which the missing values were
  dropped: NaN for the empty column.
\<close>

definition series_min :: "real list \<Rightarrow> pyfloat" where
  "series_min xs = (if xs = [] then NaN else Fin (Min (set xs)))"

definition series_max :: "real list \<Rightarrow> pyfloat" where
  "series_max xs = (if xs = [] then NaN else Fin (Max (set xs)))"


section \<open>topology\_engine.py\<close>

text \<open>
  A catalog entry.  The weights and the noise sensitivity are the finite numbers of the
  catalog file; \<open>w\<close> has one weight per prime column \<open>e2, e3, e5, e7\<close>.
\<close>

record Topology =
  topology_id :: string
  name :: string
  n_nodes :: int
  w :: "real list"
  noise_sensitivity :: real

text \<open>
  One row of the per-element aggregate table \<open>carrier_aggregate_stats.csv\<close>.  A numeric
  cell is a finite number or missing (\<open>None\<close>, read by pandas as NaN).
\<close>

record carrier_row =
  carrier_element :: string
  block :: string
  n_materials :: int
  abs_e2_mean :: "real option"
  abs_e3_mean :: "real option"
  abs_e5_mean :: "real option"
  abs_e7_mean :: "real option"
  abs_e2_median :: "real option"
  abs_e3_median :: "real option"
  abs_e5_median :: "real option"
  abs_e7_median :: "real option"
  N_median :: "real option"
  delta_N_median :: "real option"
  xi_ext_median :: "real option"

text \<open>A row in which every numeric cell is missing, to build example rows from.\<close>

definition blank_row :: carrier_row where
  "blank_row =
     \<lparr>carrier_element = ''X'', block = ''s'', n_materials = 1,
      abs_e2_mean = None, abs_e3_mean = None, abs_e5_mean = None, abs_e7_mean = None,
      abs_e2_median = None, abs_e3_median = None, abs_e5_median = None,
      abs_e7_median = None,
      N_median = None, delta_N_median = None, xi_ext_median = None\<rparr>"

text \<open>
  \<open>normalize_primes\<close> with its only prefix \<open>"abs"\<close>: the four \<open>abs_*_mean\<close> cells
  as a float array (a missing cell is NaN), their absolute values, and the division by
  the sum unless \<open>s <= 0\<close>.
\<close>

definition normalize_primes :: "carrier_row \<Rightarrow> pyfloat list" where
  "normalize_primes row =
     (let vec = map of_opt [abs_e2_mean row, abs_e3_mean row, abs_e5_mean row, abs_e7_mean row];
          vec = map fl_abs vec;
          s = fl_sum vec in
      if fl_le s (Fin 0) then [Fin 0.25, Fin 0.25, Fin 0.25, Fin 0.25]
      else map (\<lambda>v. fl_div v s) vec)"

text \<open>
  \<open>compute_ce\<close>: \<open>np.linalg.norm(vec - topo.w) ** 2\<close>, the square of the square root
  of the sum of the squared absolute differences.
\<close>

definition np_linalg_norm :: "pyfloat list \<Rightarrow> pyfloat" where
  "np_linalg_norm xs = fl_sqrt (fl_sum (map (\<lambda>x. fl_sq (fl_abs x)) xs))"

definition compute_ce :: "pyfloat list \<Rightarrow> Topology \<Rightarrow> pyfloat" where
  "compute_ce vec topo =
     fl_sq (np_linalg_norm (map (\<lambda>(v, wt). fl_sub v (Fin wt)) (zip vec (w topo))))"

record score_record =
  s_carrier_element :: string
  s_block :: string
  s_n_materials :: int
  s_topology_id :: string
  C_e :: pyfloat
  C_xi :: pyfloat
  C_total :: pyfloat
  Q_lock :: pyfloat
  xi_norm :: pyfloat

record best_record =
  b_carrier_element :: string
  b_block :: string
  b_n_materials :: int
  b_Q_lock :: pyfloat
  b_xi_norm :: pyfloat
  best_topology_e_only :: "string option"
  C_e_min :: "pyfloat option"
  best_topology :: "string option"
  C_total_min :: "pyfloat option"

text \<open>
  The running best of a scan: \<open>None\<close> before the first entry, afterwards the cost and the
  tag of the entry kept so far (in the source the cost and the topology are two variables
  that are \<open>None\<close> together and assigned together).  The update is
  \<open>if best is None or c < best: best = c; best_topo = tag\<close>.
\<close>

definition update_best :: "(pyfloat \<times> 'b) option \<Rightarrow> pyfloat \<Rightarrow> 'b \<Rightarrow> (pyfloat \<times> 'b) option" where
  "update_best best c tag =
     (case best of
        None \<Rightarrow> Some (c, tag)
      | Some (best_c, best_tag) \<Rightarrow> if fl_lt c best_c then Some (c, tag) else best)"

text \<open>The three costs of one (row, topology) pair.\<close>

definition pair_costs ::
  "pyfloat list \<Rightarrow> pyfloat \<Rightarrow> pyfloat \<Rightarrow> real \<Rightarrow> bool \<Rightarrow> Topology
   \<Rightarrow> pyfloat \<times> pyfloat \<times> pyfloat" where
  "pair_costs e_norm xi_n q_lock lambda_noise use_noise topo =
     (let c_e = compute_ce e_norm topo;
          c_xi = (if use_noise
                  then fl_mul (fl_mul xi_n (Fin (noise_sensitivity topo)))
                              (fl_sub (Fin 1) q_lock)
                  else Fin 0);
          c_total = (if use_noise then fl_add c_e (fl_mul (Fin lambda_noise) c_xi) else c_e)
      in (c_e, c_xi, c_total))"

text \<open>The record appended to the score table for one (row, topology) pair.\<close>

definition score_of ::
  "carrier_row \<Rightarrow> pyfloat list \<Rightarrow> pyfloat \<Rightarrow> pyfloat \<Rightarrow> real \<Rightarrow> bool \<Rightarrow> Topology
   \<Rightarrow> score_record" where
  "score_of row e_norm xi_n q_lock lambda_noise use_noise topo =
     (case pair_costs e_norm xi_n q_lock lambda_noise use_noise topo of
        (c_e, c_xi, c_total) \<Rightarrow>
          \<lparr>s_carrier_element = carrier_element row, s_block = block row,
           s_n_materials = n_materials row, s_topology_id = topology_id topo,
           C_e = c_e, C_xi = c_xi, C_total = c_total,
           Q_lock = q_lock, xi_norm = xi_n\<rparr>)"

text \<open>
  The inner loop over the catalog.  The state is the list of records appended so far
  and the running best for \<open>C_e\<close> and for \<open>C_total\<close>.
\<close>

definition topo_step ::
  "carrier_row \<Rightarrow> pyfloat list \<Rightarrow> pyfloat \<Rightarrow> pyfloat \<Rightarrow> real \<Rightarrow> bool
   \<Rightarrow> score_record list \<times> (pyfloat \<times> string) option \<times> (pyfloat \<times> string) option
   \<Rightarrow> Topology
   \<Rightarrow> score_record list \<times> (pyfloat \<times> string) option \<times> (pyfloat \<times> string) option" where
  "topo_step row e_norm xi_n q_lock lambda_noise use_noise st topo =
     (case st of (records, best_e, best_total) \<Rightarrow>
        (let rec = score_of row e_norm xi_n q_lock lambda_noise use_noise topo in
         (records @ [rec],
          update_best best_e (C_e rec) (topology_id topo),
          update_best best_total (C_total rec) (topology_id topo))))"

text \<open>
  The column statistics computed once per table: minimum and span of the
  \<open>delta_N_median\<close> and of the \<open>xi_ext_median\<close> column (missing cells dropped), the
  span being \<open>max(max - min, 1e-6)\<close>.
\<close>

definition dropna :: "real option list \<Rightarrow> real list" where
  "dropna col = [x. Some x \<leftarrow> col]"

definition column_min :: "real option list \<Rightarrow> pyfloat" where
  "column_min col = series_min (dropna col)"

definition column_span :: "real option list \<Rightarrow> pyfloat" where
  "column_span col =
     py_max2 (fl_sub (series_max (dropna col)) (series_min (dropna col))) (Fin (1 / 1000000))"

text \<open>The body of the loop over the rows of \<open>carrier_df\<close>.\<close>

definition row_costs ::
  "carrier_row list \<Rightarrow> Topology list \<Rightarrow> real \<Rightarrow> bool \<Rightarrow> carrier_row
   \<Rightarrow> score_record list \<times> best_record" where
  "row_costs carrier_df catalog lambda_noise use_noise row =
     (let delta_min = column_min (map delta_N_median carrier_df);
          delta_span = column_span (map delta_N_median carrier_df);
          xi_min = column_min (map xi_ext_median carrier_df);
          xi_span = column_span (map xi_ext_median carrier_df);
          e_norm = normalize_primes row;
          q_lock = (case delta_N_median row of
                      None \<Rightarrow> Fin 0
                    | Some delta_N \<Rightarrow>
                        np_clip (fl_sub (Fin 1) (fl_div (fl_sub (Fin delta_N) delta_min) delta_span))
                                (Fin 0) (Fin 1));
          xi_n = (case xi_ext_median row of
                    None \<Rightarrow> Fin 0
                  | Some xi_ext \<Rightarrow>
                      np_clip (fl_div (fl_sub (Fin xi_ext) xi_min) xi_span) (Fin 0) (Fin 1))
      in case foldl (topo_step row e_norm xi_n q_lock lambda_noise use_noise)
                    ([], None, None) catalog of
           (records, best_e, best_total) \<Rightarrow>
             (records,
              \<lparr>b_carrier_element = carrier_element row, b_block = block row,
               b_n_materials = n_materials row, b_Q_lock = q_lock, b_xi_norm = xi_n,
               best_topology_e_only = map_option snd best_e,
               C_e_min = map_option fst best_e,
               best_topology = map_option snd best_total,
               C_total_min = map_option fst best_total\<rparr>))"

text \<open>\<open>aggregate_costs\<close>: the score table and the table of the best topology per row.\<close>

definition aggregate_costs ::
  "carrier_row list \<Rightarrow> Topology list \<Rightarrow> real \<Rightarrow> bool
   \<Rightarrow> score_record list \<times> best_record list" where
  "aggregate_costs carrier_df catalog lambda_noise use_noise =
     (let per_row = map (row_costs carrier_df catalog lambda_noise use_noise) carrier_df
      in (concat (map fst per_row), map snd per_row))"

text \<open>
  What "arg-min, earliest on ties" means with float comparison: no entry compares
  strictly below entry \<open>i\<close>, and no earlier entry compares below or equal to it.
\<close>

definition first_argmin :: "pyfloat list \<Rightarrow> nat \<Rightarrow> bool" where
  "first_argmin costs i \<longleftrightarrow>
     i < length costs
     \<and> (\<forall>j < length costs. \<not> fl_lt (costs ! j) (costs ! i))
     \<and> (\<forall>j < i. \<not> fl_le (costs ! j) (costs ! i))"



section \<open>resonant\_engine.py\<close>

definition COMPLEXITY :: "(string \<times> real) list" where
  "COMPLEXITY =
     [(''BIN_DIPOLE'', 0.2), (''TRI_RING'', 0.4), (''TETRA_PACK'', 0.6),
      (''PENTA_FLOWER'', 0.8), (''HEPTA_FLOWER'', 1.0)]"

definition N_SCALE :: "(string \<times> real) list" where
  "N_SCALE =
     [(''BIN_DIPOLE'', 1.0), (''TRI_RING'', 1.15), (''TETRA_PACK'', 1.30),
      (''PENTA_FLOWER'', 1.45), (''HEPTA_FLOWER'', 1.60)]"

text \<open>\<open>table.get(key, default)\<close>.\<close>

definition dict_get :: "(string \<times> real) list \<Rightarrow> string \<Rightarrow> real \<Rightarrow> real" where
  "dict_get table key dflt = (case map_of table key of None \<Rightarrow> dflt | Some v \<Rightarrow> v)"

record HyperParams =
  sigma_e :: real
  sigma_N :: real
  sigma_xi :: real
  lambda_N :: real
  lambda_xi :: real
  xi_env :: real
  k_core :: real

definition default_params :: HyperParams where
  "default_params =
     \<lparr>sigma_e = 0.1, sigma_N = 1.0, sigma_xi = 0.5, lambda_N = 0.5, lambda_xi = 0.5,
      xi_env = 0.05, k_core = 1.0\<rparr>"

text \<open>
  \<open>_prime_vector\<close>: for each prime the median, or the mean when the median is missing,
  in absolute value; NaN when both are missing.
\<close>

definition prime_entry :: "real option \<Rightarrow> real option \<Rightarrow> pyfloat" where
  "prime_entry median mean =
     (let val = (case median of None \<Rightarrow> mean | Some v \<Rightarrow> Some v) in
      case val of None \<Rightarrow> NaN | Some v \<Rightarrow> Fin \<bar>v\<bar>)"

definition prime_vector :: "carrier_row \<Rightarrow> pyfloat list" where
  "prime_vector row =
     [prime_entry (abs_e2_median row) (abs_e2_mean row),
      prime_entry (abs_e3_median row) (abs_e3_mean row),
      prime_entry (abs_e5_median row) (abs_e5_mean row),
      prime_entry (abs_e7_median row) (abs_e7_mean row)]"

text \<open>Boolean-mask indexing \<open>a[mask]\<close> and \<open>np.dot\<close>.\<close>

definition masked :: "bool list \<Rightarrow> 'a list \<Rightarrow> 'a list" where
  "masked msk xs = map snd (filter fst (zip msk xs))"

definition np_dot :: "pyfloat list \<Rightarrow> pyfloat list \<Rightarrow> pyfloat" where
  "np_dot a b = fl_sum (map (\<lambda>(x, y). fl_mul x y) (zip a b))"

text \<open>
  \<open>_fit_amplitude\<close>: the amplitude, the fingerprint cost and the simulated vector.
  With no observed component the cost is \<open>inf\<close>.
\<close>

definition fit_amplitude ::
  "pyfloat list \<Rightarrow> real list \<Rightarrow> real \<Rightarrow> pyfloat \<times> pyfloat \<times> pyfloat list" where
  "fit_amplitude e_obs wv sig_e =
     (let msk = map (\<lambda>e. e \<noteq> NaN) e_obs in
      if \<not> list_ex id msk then (NaN, PInf, map (\<lambda>e. NaN) e_obs)
      else
        let w_m = masked msk (map Fin wv);
            e_m = masked msk e_obs;
            denom = np_dot w_m w_m;
            A = (if fl_le denom (Fin 0) then Fin 0 else fl_div (np_dot e_m w_m) denom);
            e_sim = map (\<lambda>x. fl_mul A (Fin x)) wv;
            ce = fl_sum (map (\<lambda>(e, sim). fl_sq (fl_div (fl_sub e sim) (Fin sig_e)))
                             (zip (masked msk e_obs) (masked msk e_sim)))
        in (A, ce, e_sim))"

definition q_lock_of :: "real option \<Rightarrow> pyfloat" where
  "q_lock_of delta_N =
     (case delta_N of
        None \<Rightarrow> Fin 0
      | Some d \<Rightarrow> np_clip (fl_sub (Fin 1) (Fin d)) (Fin 0) (Fin 1))"

definition xi_sim_of :: "pyfloat \<Rightarrow> string \<Rightarrow> HyperParams \<Rightarrow> pyfloat" where
  "xi_sim_of q topo_id params =
     fl_add (Fin (xi_env params))
            (fl_mul (fl_sub (Fin 1) q) (Fin (dict_get COMPLEXITY topo_id 1.0)))"

definition n_sim_of :: "real option \<Rightarrow> string \<Rightarrow> real option" where
  "n_sim_of N_obs topo_id =
     (case N_obs of None \<Rightarrow> None | Some n \<Rightarrow> Some (n * dict_get N_SCALE topo_id 1.0))"

record resonant_score =
  rs_carrier_element :: string
  rs_block :: string
  rs_topology_id :: string
  rs_C_e :: pyfloat
  rs_C_N :: pyfloat
  rs_C_xi :: pyfloat
  rs_C_total :: pyfloat
  rs_A_T :: pyfloat
  rs_N_sim :: "real option"
  rs_xi_sim :: pyfloat
  rs_q_lock :: pyfloat

record resonant_best =
  rb_carrier_element :: string
  rb_block :: string
  rb_xi_norm :: pyfloat
  rb_Q_lock :: pyfloat
  rb_best_topology :: "string option"
  rb_C_total_min :: "pyfloat option"
  rb_C_e_min :: "pyfloat option"
  rb_C_N_min :: "pyfloat option"
  rb_C_xi_min :: "pyfloat option"
  rb_A_best :: "pyfloat option"
  confidence :: pyfloat

text \<open>The score record of one (row, topology) pair in \<open>infer_topologies\<close>.\<close>

definition resonant_score_of :: "HyperParams \<Rightarrow> carrier_row \<Rightarrow> Topology \<Rightarrow> resonant_score" where
  "resonant_score_of params row topo =
     (let e_obs = prime_vector row;
          N_obs = N_median row;
          xi_obs = xi_ext_median row;
          q = q_lock_of (delta_N_median row) in
      case fit_amplitude e_obs (w topo) (sigma_e params) of
        (A_T, c_e, e_sim) \<Rightarrow>
          let N_sim = n_sim_of N_obs (topology_id topo);
              c_N = (case (N_obs, N_sim) of
                       (Some n, Some ns) \<Rightarrow>
                         fl_sq (fl_div (fl_sub (Fin n) (Fin ns)) (Fin (sigma_N params)))
                     | _ \<Rightarrow> Fin 0);
              xi_s = xi_sim_of q (topology_id topo) params;
              c_xi = (case xi_obs of
                        Some x \<Rightarrow> fl_sq (fl_div (fl_sub (Fin x) xi_s) (Fin (sigma_xi params)))
                      | None \<Rightarrow> Fin 0);
              c_total = fl_add (fl_add c_e (fl_mul (Fin (lambda_N params)) c_N))
                               (fl_mul (Fin (lambda_xi params)) c_xi)
          in \<lparr>rs_carrier_element = carrier_element row, rs_block = block row,
               rs_topology_id = topology_id topo,
               rs_C_e = c_e, rs_C_N = c_N, rs_C_xi = c_xi, rs_C_total = c_total,
               rs_A_T = A_T, rs_N_sim = N_sim, rs_xi_sim = xi_s, rs_q_lock = q\<rparr>)"

text \<open>
  The inner loop of \<open>infer_topologies\<close>: the records, the running best (total cost
  together with the topology and the terms assigned with it) and \<open>element_totals\<close>.
\<close>

definition resonant_step ::
  "HyperParams \<Rightarrow> carrier_row
   \<Rightarrow> resonant_score list \<times> (pyfloat \<times> resonant_score) option \<times> pyfloat list
   \<Rightarrow> Topology
   \<Rightarrow> resonant_score list \<times> (pyfloat \<times> resonant_score) option \<times> pyfloat list" where
  "resonant_step params row st topo =
     (case st of (score_records, best, element_totals) \<Rightarrow>
        (let rec = resonant_score_of params row topo in
         (score_records @ [rec],
          update_best best (rs_C_total rec) rec,
          element_totals @ [rs_C_total rec])))"

text \<open>
  The body of the loop over the rows.  \<open>xi_min\<close> and \<open>xi_span\<close> are the table-level
  helpers for \<open>xi_norm\<close>; \<open>delta_norm\<close> is computed by the source but never used.  In
  the confidence, \<open>best_total\<close> is read only when \<open>element_totals\<close> is not empty, and then
  it is not \<open>None\<close>; the guard \<open>max_total == 0\<close> excludes the division by zero.
\<close>

definition infer_row ::
  "HyperParams \<Rightarrow> Topology list \<Rightarrow> pyfloat \<Rightarrow> pyfloat \<Rightarrow> carrier_row
   \<Rightarrow> resonant_score list \<times> resonant_best" where
  "infer_row params catalog xi_min xi_span row =
     (let xi_n = (case xi_ext_median row of
                    Some x \<Rightarrow> fl_div (fl_sub (Fin x) xi_min) xi_span
                  | None \<Rightarrow> Fin 0);
          xi_n = np_clip xi_n (Fin 0) (Fin 1) in
      case foldl (resonant_step params row) ([], None, []) catalog of
        (score_records, best, element_totals) \<Rightarrow>
          let max_total = (if element_totals \<noteq> [] then py_max element_totals else PInf);
              conf = (if element_totals = [] \<or> fl_eq max_total (Fin 0) then Fin 0
                      else case best of
                             None \<Rightarrow> Fin 0
                           | Some (best_total, b) \<Rightarrow>
                               fl_sub (Fin 1) (fl_div best_total max_total))
          in (score_records,
              \<lparr>rb_carrier_element = carrier_element row, rb_block = block row,
               rb_xi_norm = xi_n, rb_Q_lock = q_lock_of (delta_N_median row),
               rb_best_topology = map_option (\<lambda>(t, b). rs_topology_id b) best,
               rb_C_total_min = map_option fst best,
               rb_C_e_min = map_option (\<lambda>(t, b). rs_C_e b) best,
               rb_C_N_min = map_option (\<lambda>(t, b). rs_C_N b) best,
               rb_C_xi_min = map_option (\<lambda>(t, b). rs_C_xi b) best,
               rb_A_best = map_option (\<lambda>(t, b). rs_A_T b) best,
               confidence = conf\<rparr>))"

text \<open>
  \<open>infer_topologies\<close>: the optional element filter, the error on an empty table, the
  table-level helpers (\<open>(0.0, 1.0)\<close> for an empty column) and the loop over the rows.
\<close>

definition infer_topologies ::
  "carrier_row list \<Rightarrow> Topology list \<Rightarrow> HyperParams \<Rightarrow> string set option
   \<Rightarrow> py_error + (resonant_score list \<times> resonant_best list)" where
  "infer_topologies carrier_df catalog params elements =
     (let df = (case elements of
                  None \<Rightarrow> carrier_df
                | Some els \<Rightarrow>
                    if els = {} then carrier_df
                    else filter (\<lambda>r. carrier_element r \<in> els) carrier_df) in
      if df = [] then Inl ValueError
      else
        let xi_vals = dropna (map xi_ext_median df);
            xi_min = (if xi_vals \<noteq> [] then series_min xi_vals else Fin 0);
            xi_max = (if xi_vals \<noteq> [] then series_max xi_vals else Fin 1);
            xi_span = py_max2 (fl_sub xi_max xi_min) (Fin (1 / 1000000));
            per_row = map (infer_row params catalog xi_min xi_span) df
        in Inr (concat (map fst per_row), map snd per_row))"



section \<open>analysis.py\<close>

text \<open>
  \<open>cliffs_delta\<close>: NaN when a group is empty, otherwise the sum of the signs of all
  pairwise differences \<open>x[i] - y[j]\<close> divided by \<open>n1 * n2\<close>.
\<close>

definition cliffs_delta :: "pyfloat list \<Rightarrow> pyfloat list \<Rightarrow> pyfloat" where
  "cliffs_delta x y =
     (let n1 = length x; n2 = length y in
      if n1 = 0 \<or> n2 = 0 then NaN
      else
        let comparisons = map (\<lambda>a. map (\<lambda>b. np_sign (fl_sub a b)) y) x;
            delta = fl_div (fl_sum (map fl_sum comparisons)) (Fin (real (n1 * n2)))
        in delta)"


text \<open>
  \<open>_group_arrays\<close>: the values whose label is one of the target labels
  (\<open>values[np.isin(labels, target_labels)]\<close>); values and labels come from the same
  table and have the same length.
\<close>

definition group_arrays :: "'a list \<Rightarrow> string list \<Rightarrow> string list \<Rightarrow> 'a list" where
  "group_arrays values labels target_labels =
     map fst (filter (\<lambda>(v, l). l \<in> set target_labels) (zip values labels))"

text \<open>\<open>np.median\<close> of a non-empty array of finite numbers.\<close>

definition np_median :: "real list \<Rightarrow> real" where
  "np_median xs =
     (let s = sort xs; n = length s in
      if odd n then s ! (n div 2) else (s ! (n div 2 - 1) + s ! (n div 2)) / 2)"

record TestResult =
  group_sizes :: "nat \<times> nat"
  delta :: "pyfloat option"
  p_value :: "pyfloat option"
  median_diff :: "pyfloat option"

text \<open>
  \<open>mann_whitney_with_effect\<close>.  The two-sided rank test is scipy's \<open>mannwhitneyu\<close>;
  its p-value is the parameter \<open>mannwhitneyu\<close>.
\<close>

definition mann_whitney_with_effect ::
  "(real list \<Rightarrow> real list \<Rightarrow> pyfloat) \<Rightarrow> real list \<Rightarrow> string list \<Rightarrow> string list
   \<Rightarrow> string list \<Rightarrow> TestResult" where
  "mann_whitney_with_effect mannwhitneyu values labels group_a group_b =
     (let a_vals = group_arrays values labels group_a;
          b_vals = group_arrays values labels group_b;
          sizes = (length a_vals, length b_vals) in
      if length a_vals = 0 \<or> length b_vals = 0 then
        \<lparr>group_sizes = sizes, delta = None, p_value = None, median_diff = None\<rparr>
      else
        \<lparr>group_sizes = sizes,
         delta = Some (cliffs_delta (map Fin a_vals) (map Fin b_vals)),
         p_value = Some (mannwhitneyu a_vals b_vals),
         median_diff = Some (Fin (np_median a_vals - np_median b_vals))\<rparr>)"

text \<open>
  One row of the feature matrix \<open>X\<close>: the four prime features \<open>e2, e3, e5, e7\<close>.
\<close>

type_synonym features = "real \<times> real \<times> real \<times> real"

type_synonym roc_points = "pyfloat list \<times> pyfloat list \<times> pyfloat list"

datatype cv_scheme = LeaveOneOut | StratifiedKFold nat int

text \<open>
  The scikit-learn functions that \<open>evaluate_classifier\<close> calls are parameters:
  \<open>cross_val_predict\<close> stands for fitting the balanced logistic model under the given
  cross-validation scheme and returning the out-of-fold probability of the positive
  class; it and the two ROC functions may raise.
\<close>

record sklearn =
  cross_val_predict :: "cv_scheme \<Rightarrow> features list \<Rightarrow> nat list \<Rightarrow> py_error + pyfloat list"
  roc_auc_score :: "nat list \<Rightarrow> pyfloat list \<Rightarrow> py_error + pyfloat"
  roc_curve :: "nat list \<Rightarrow> pyfloat list \<Rightarrow> py_error + roc_points"
  accuracy_score :: "nat list \<Rightarrow> nat list \<Rightarrow> pyfloat"
  balanced_accuracy_score :: "nat list \<Rightarrow> nat list \<Rightarrow> pyfloat"

record ClassifierResult =
  n_samples :: nat
  n_positive :: nat
  n_negative :: nat
  accuracy :: "pyfloat option"
  balanced_accuracy :: "pyfloat option"
  roc_auc :: "pyfloat option"
  baseline_accuracy :: "pyfloat option"
  roc_curve_points :: "roc_points option"

text \<open>
  The binary target \<open>y = np.isin(labels, ["d", "f"]).astype(int)\<close> and the test
  \<open>len(np.unique(y)) < 2 or len(y) < 3\<close> that skips the classifier.
\<close>

definition target :: "string list \<Rightarrow> nat list" where
  "target labels = map (\<lambda>l. if l \<in> set [''d'', ''f''] then 1 else 0) labels"

definition skip_classifier :: "nat list \<Rightarrow> bool" where
  "skip_classifier y = (length (remdups y) < 2 \<or> length y < 3)"

definition evaluate_classifier ::
  "sklearn \<Rightarrow> features list \<Rightarrow> string list \<Rightarrow> int \<Rightarrow> py_error + ClassifierResult" where
  "evaluate_classifier sk X labels random_state =
     (let y = target labels;
          n_pos = sum_list y;
          n_neg = length y - n_pos;
          baseline_acc = (if length y > 0
                          then Some (Fin (real (max n_pos n_neg) / real (length y)))
                          else None) in
      if skip_classifier y then
        Inr \<lparr>n_samples = length y, n_positive = n_pos, n_negative = n_neg,
             accuracy = None, balanced_accuracy = None, roc_auc = None,
             baseline_accuracy = baseline_acc, roc_curve_points = None\<rparr>
      else
        let cv = (if length y \<le> 12 then LeaveOneOut
                  else StratifiedKFold (min 5 (min n_neg n_pos)) random_state) in
        case cross_val_predict sk cv X y of
          Inl e \<Rightarrow> Inl e
        | Inr probas \<Rightarrow>
            let preds = map (\<lambda>p. if fl_le (Fin 0.5) p then 1 else 0) probas;
                roc = (case roc_auc_score sk y probas of
                         Inl ValueError \<Rightarrow> Inr (None, None)
                       | Inl e \<Rightarrow> Inl e
                       | Inr auc \<Rightarrow>
                           (case roc_curve sk y probas of
                              Inl ValueError \<Rightarrow> Inr (None, None)
                            | Inl e \<Rightarrow> Inl e
                            | Inr points \<Rightarrow> Inr (Some auc, Some points))) in
            case roc of
              Inl e \<Rightarrow> Inl e
            | Inr (auc, roc_points) \<Rightarrow>
                Inr \<lparr>n_samples = length y, n_positive = n_pos, n_negative = n_neg,
                     accuracy = Some (accuracy_score sk y preds),
                     balanced_accuracy = Some (balanced_accuracy_score sk y preds),
                     roc_auc = auc,
                     baseline_accuracy = baseline_acc, roc_curve_points = roc_points\<rparr>)"




section \<open>null\_models.py\<close>

text \<open>
  A metric handed to the null-model helpers is a Python object that is either \<open>None\<close>
  or a float.  \<open>np.isnan\<close> is a numpy ufunc on numbers: applied to \<open>None\<close> it raises
  \<open>TypeError\<close>.
\<close>

definition np_isnan :: "pyfloat option \<Rightarrow> py_error + bool" where
  "np_isnan v = (case v of None \<Rightarrow> Inl TypeError | Some x \<Rightarrow> Inr (x = NaN))"

text \<open>
  The comprehension \<open>[x for x in null_samples if x is not None and not np.isnan(x)]\<close>:
  here \<open>None\<close> is tested first, so \<open>np.isnan\<close> only sees floats.
\<close>

definition finite_samples :: "pyfloat option list \<Rightarrow> pyfloat list" where
  "finite_samples null_samples = [x. Some x \<leftarrow> null_samples, x \<noteq> NaN]"

text \<open>
  \<open>_empirical_p\<close>.  The guard is \<open>np.isnan(real) or real is None or arr.size == 0\<close>;
  Python evaluates \<open>or\<close> from the left, so \<open>np.isnan(real)\<close> runs before the test for
  \<open>None\<close>.
\<close>

definition empirical_p :: "pyfloat option \<Rightarrow> pyfloat option list \<Rightarrow> py_error + pyfloat option" where
  "empirical_p real_v null_samples =
     (let arr = finite_samples null_samples in
      case np_isnan real_v of
        Inl e \<Rightarrow> Inl e
      | Inr real_is_nan \<Rightarrow>
          if real_is_nan \<or> real_v = None \<or> length arr = 0 then Inr None
          else
            let extreme = length (filter (\<lambda>a. fl_le (fl_abs (the real_v)) (fl_abs a)) arr)
            in Inr (Some (Fin ((real extreme + 1) / (real (length arr) + 1)))))"

text \<open>
  \<open>_z_score\<close>, with the same guard.  \<open>arr.mean()\<close> and \<open>arr.std(ddof=1)\<close> are numpy
  floats, so the division does not raise when the standard deviation is zero.
\<close>

definition arr_mean :: "pyfloat list \<Rightarrow> pyfloat" where
  "arr_mean arr = fl_div (fl_sum arr) (Fin (real (length arr)))"

definition arr_std_ddof1 :: "pyfloat list \<Rightarrow> pyfloat" where
  "arr_std_ddof1 arr =
     fl_sqrt (fl_div (fl_sum (map (\<lambda>a. fl_sq (fl_abs (fl_sub a (arr_mean arr)))) arr))
                     (Fin (real (length arr) - 1)))"

definition z_score :: "pyfloat option \<Rightarrow> pyfloat option list \<Rightarrow> py_error + pyfloat option" where
  "z_score real_v null_samples =
     (let arr = finite_samples null_samples in
      case np_isnan real_v of
        Inl e \<Rightarrow> Inl e
      | Inr real_is_nan \<Rightarrow>
          if real_is_nan \<or> real_v = None \<or> length arr < 2 then Inr None
          else Inr (Some (fl_div (fl_sub (the real_v) (arr_mean arr)) (arr_std_ddof1 arr))))"


text \<open>
  \<open>_metric_snapshot\<close>: the three Cliff's deltas and the classifier accuracy, as the
  dictionary's items in insertion order.  \<open>evaluate_classifier\<close> is called with its
  default \<open>random_state = 0\<close>.
\<close>

definition metric_snapshot ::
  "sklearn \<Rightarrow> features list \<Rightarrow> string list \<Rightarrow> py_error + (string \<times> pyfloat option) list" where
  "metric_snapshot sk X labels =
     (let e2 = map (\<lambda>(x2, x3, x5, x7). Fin x2) X;
          e5 = map (\<lambda>(x2, x3, x5, x7). Fin x5) X;
          e7 = map (\<lambda>(x2, x3, x5, x7). Fin x7) X;
          metrics =
            [(''delta_e2_p_vs_df'',
                Some (cliffs_delta (group_arrays e2 labels [''p''])
                                   (group_arrays e2 labels [''d'', ''f'']))),
             (''delta_e5_df_vs_sp'',
                Some (cliffs_delta (group_arrays e5 labels [''d'', ''f''])
                                   (group_arrays e5 labels [''s'', ''p'']))),
             (''delta_e7_df_vs_sp'',
                Some (cliffs_delta (group_arrays e7 labels [''d'', ''f''])
                                   (group_arrays e7 labels [''s'', ''p''])))] in
      case evaluate_classifier sk X labels 0 of
        Inl e \<Rightarrow> Inl e
      | Inr clf_res \<Rightarrow> Inr (metrics @ [(''classifier_accuracy'', accuracy clf_res)]))"


section \<open>data.py\<close>

text \<open>
  One row of the material table: the columns that \<open>aggregate_element_table\<close> reads.  A
  missing cell is \<open>None\<close>.  The optional descriptor columns \<open>carrier_Z\<close>,
  \<open>carrier_group\<close> and \<open>carrier_period\<close> are copied to the output when present and cannot
  make the aggregation fail; they are left out.
\<close>

record material =
  mat_name :: string
  mat_carrier_element :: "string option"
  carrier_block :: "string option"
  include_study04 :: int
  e2 :: "real option"
  e3 :: "real option"
  e5 :: "real option"
  e7 :: "real option"

text \<open>
  One row of the element table.  \<open>prime_stats\<close> holds, for \<open>e2, e3, e5, e7\<close> in this
  order, the columns \<open><prime>_mean\<close>, \<open><prime>_median\<close> and \<open><prime>_std\<close>.
\<close>

record element_record =
  element :: string
  el_block :: string
  el_n_materials :: nat
  prime_stats :: "(pyfloat \<times> pyfloat \<times> pyfloat) list"

definition filter_included_rows :: "material list \<Rightarrow> material list" where
  "filter_included_rows df =
     filter (\<lambda>m. include_study04 m = 1 \<and> mat_carrier_element m \<noteq> None
                 \<and> carrier_block m \<noteq> None) df"

text \<open>\<open>Series.dropna().unique()\<close>: the distinct values in order of first appearance.\<close>

definition dropna_unique :: "'a option list \<Rightarrow> 'a list" where
  "dropna_unique col = rev (remdups (rev [x. Some x \<leftarrow> col]))"

text \<open>
  \<open>Series.mean()\<close>, \<open>Series.median()\<close> and \<open>Series.std(ddof=1)\<close> of a column without
  missing values: NaN for the empty column, and for the standard deviation of fewer
  than two values.
\<close>

definition series_mean :: "real list \<Rightarrow> pyfloat" where
  "series_mean xs = (if xs = [] then NaN else Fin (sum_list xs / real (length xs)))"

definition series_median :: "real list \<Rightarrow> pyfloat" where
  "series_median xs = (if xs = [] then NaN else Fin (np_median xs))"

definition series_std :: "real list \<Rightarrow> pyfloat" where
  "series_std xs =
     (if length xs < 2 then NaN
      else let mu = sum_list xs / real (length xs) in
           Fin (sqrt (sum_list (map (\<lambda>x. (x - mu)\<^sup>2) xs) / (real (length xs) - 1))))"

text \<open>The rows of one \<open>groupby("carrier_element")\<close> group.\<close>

definition group_of :: "material list \<Rightarrow> string \<Rightarrow> material list" where
  "group_of filtered el = filter (\<lambda>m. mat_carrier_element m = Some el) filtered"

definition PRIME_COLUMNS :: "(string \<times> (material \<Rightarrow> real option)) list" where
  "PRIME_COLUMNS = [(''e2'', e2), (''e3'', e3), (''e5'', e5), (''e7'', e7)]"

text \<open>\<open>group[prime].abs().dropna()\<close>.\<close>

definition prime_values :: "material list \<Rightarrow> (material \<Rightarrow> real option) \<Rightarrow> real list" where
  "prime_values grp col = [\<bar>x\<bar>. Some x \<leftarrow> map col grp]"

text \<open>
  The loop over the groups, in the sorted order of the keys.  A group whose block
  labels are not exactly one distinct value raises \<open>ValueError\<close> and ends the loop.
\<close>

fun aggregate_groups ::
  "material list \<Rightarrow> string list \<Rightarrow> element_record list \<times> string list
   \<Rightarrow> py_error + (element_record list \<times> string list)" where
  "aggregate_groups filtered [] acc = Inr acc"
| "aggregate_groups filtered (el # rest) (records, warnings) =
     (let grp = group_of filtered el in
      case dropna_unique (map carrier_block grp) of
        [blk] \<Rightarrow>
          aggregate_groups filtered rest
            (records @
               [\<lparr>element = el, el_block = blk, el_n_materials = length grp,
                 prime_stats =
                   map (\<lambda>(prime, col). (series_mean (prime_values grp col),
                                         series_median (prime_values grp col),
                                         series_std (prime_values grp col)))
                       PRIME_COLUMNS\<rparr>],
             warnings @
               [''No valid values for '' @ prime @ '' in element '' @ el @ ''; filling with NaN.''.
                  (prime, col) \<leftarrow> PRIME_COLUMNS, prime_values grp col = []])
      | _ \<Rightarrow> Inl ValueError)"

text \<open>
  \<open>aggregate_element_table\<close>: \<open>ValueError\<close> when no row is included, otherwise the loop
  over the groups of the included rows, keyed by the sorted distinct carrier elements.
\<close>

definition aggregate_element_table ::
  "material list \<Rightarrow> py_error + (element_record list \<times> string list)" where
  "aggregate_element_table df =
     (let filtered = filter_included_rows df in
      if filtered = [] then Inl ValueError
      else aggregate_groups filtered
             (sort (remdups [el. Some el \<leftarrow> map mat_carrier_element filtered])) ([], []))"


section \<open>Example inputs\<close>

text \<open>A synthetic catalog of three topologies and a row with fingerprint \<open>(1, 3, 0, 0)\<close>.\<close>

definition catalog3 :: "Topology list" where
  "catalog3 =
     [\<lparr>topology_id = ''T1'', name = ''one'', n_nodes = 2, w = [1, 0, 0, 0], noise_sensitivity = 1\<rparr>,
      \<lparr>topology_id = ''T2'', name = ''two'', n_nodes = 3, w = [0, 1, 0, 0], noise_sensitivity = 1\<rparr>,
      \<lparr>topology_id = ''T3'', name = ''three'', n_nodes = 4, w = [1 / 4, 1 / 4, 1 / 4, 1 / 4],
       noise_sensitivity = 1\<rparr>]"

definition row13 :: carrier_row where
  "row13 = blank_row\<lparr>abs_e2_mean := Some 1, abs_e3_mean := Some 3,
                      abs_e5_mean := Some 0, abs_e7_mean := Some 0,
                      abs_e2_median := Some 1, abs_e3_median := Some 3,
                      abs_e5_median := Some 0, abs_e7_median := Some 0\<rparr>"


text \<open>A row with fingerprint \<open>(1, 0, 0, 0)\<close> and a given noise indicator.\<close>

definition row_e2 :: "real option \<Rightarrow> carrier_row" where
  "row_e2 xi = blank_row\<lparr>abs_e2_mean := Some 1, abs_e3_mean := Some 0,
                         abs_e5_mean := Some 0, abs_e7_mean := Some 0,
                         abs_e2_median := Some 1, abs_e3_median := Some 0,
                         abs_e5_median := Some 0, abs_e7_median := Some 0,
                         xi_ext_median := xi\<rparr>"


text \<open>An included material of a given carrier element and block, without fingerprint.\<close>

definition mat :: "string \<Rightarrow> string \<Rightarrow> material" where
  "mat el blk =
     \<lparr>mat_name = ''m'', mat_carrier_element = Some el, carrier_block = Some blk,
      include_study04 = 1, e2 = None, e3 = None, e5 = None, e7 = None\<rparr>"


section \<open>Properties of the float operations\<close>

lemma fl_abs_idem: "fl_abs (fl_abs x) = fl_abs x"
  by (cases x) simp_all

lemma fl_le_refl: "x \<noteq> NaN \<Longrightarrow> fl_le x x"
  by (cases x) simp_all

lemma fl_abs_NaN_iff: "fl_abs x = NaN \<longleftrightarrow> x = NaN"
  by (cases x) simp_all


lemma fl_add_commute: "fl_add x y = fl_add y x"
  by (cases x; cases y) simp_all

lemma fl_add_assoc: "fl_add (fl_add x y) z = fl_add x (fl_add y z)"
  by (cases x; cases y; cases z) simp_all

lemma fl_add_left_commute: "fl_add x (fl_add y z) = fl_add y (fl_add x z)"
  by (cases x; cases y; cases z) simp_all

lemma fl_add_zero: "fl_add (Fin 0) x = x" "fl_add x (Fin 0) = x"
  by (cases x; simp)+

lemma fl_neg_add: "fl_neg (fl_add x y) = fl_add (fl_neg x) (fl_neg y)"
  by (cases x; cases y) simp_all

lemma fl_neg_neg: "fl_neg (fl_neg x) = x"
  by (cases x) simp_all

lemma np_sign_sub_swap: "np_sign (fl_sub b a) = fl_neg (np_sign (fl_sub a b))"
  by (cases a; cases b) (simp_all add: fl_sub_def sgn_real_def)

lemma fl_div_neg_pos: "0 < d \<Longrightarrow> fl_div (fl_neg s) (Fin d) = fl_neg (fl_div s (Fin d))"
  by (cases s) (simp_all add: signed_inf_def)

lemma fl_sum_Nil: "fl_sum [] = Fin 0"
  by (simp add: fl_sum_def)

lemma fl_sum_Cons: "fl_sum (x # xs) = fl_add x (fl_sum xs)"
  by (simp add: fl_sum_def)

lemma fl_sum_addf:
  "fl_sum (map (\<lambda>x. fl_add (f x) (g x)) xs) = fl_add (fl_sum (map f xs)) (fl_sum (map g xs))"
  by (induction xs)
     (simp_all add: fl_sum_Nil fl_sum_Cons fl_add_assoc fl_add_left_commute)

lemma fl_sum_zeros: "fl_sum (map (\<lambda>x. Fin 0) xs) = Fin 0"
  by (induction xs) (simp_all add: fl_sum_Nil fl_sum_Cons)

lemma fl_sum_swap:
  "fl_sum (map (\<lambda>a. fl_sum (map (f a) ys)) xs)
   = fl_sum (map (\<lambda>b. fl_sum (map (\<lambda>a. f a b) xs)) ys)"
proof (induction xs)
  case Nil
  show ?case by (simp add: fl_sum_Nil fl_sum_zeros)
next
  case (Cons a xs)
  show ?case
    by (simp add: fl_sum_Cons Cons.IH fl_sum_addf)
qed

lemma fl_sum_neg: "fl_sum (map (\<lambda>x. fl_neg (f x)) xs) = fl_neg (fl_sum (map f xs))"
  by (induction xs) (simp_all add: fl_sum_Nil fl_sum_Cons fl_neg_add)

lemma sign_matrix_swap:
  "fl_sum (map fl_sum (map (\<lambda>a. map (\<lambda>b. np_sign (fl_sub a b)) y) x))
   = fl_neg (fl_sum (map fl_sum (map (\<lambda>b. map (\<lambda>a. np_sign (fl_sub b a)) x) y)))"
proof -
  have "fl_sum (map fl_sum (map (\<lambda>a. map (\<lambda>b. np_sign (fl_sub a b)) y) x))
        = fl_sum (map (\<lambda>a. fl_sum (map (\<lambda>b. np_sign (fl_sub a b)) y)) x)"
    by (simp add: comp_def)
  also have "\<dots> = fl_sum (map (\<lambda>b. fl_sum (map (\<lambda>a. np_sign (fl_sub a b)) x)) y)"
    by (rule fl_sum_swap)
  also have "\<dots> = fl_sum (map (\<lambda>b. fl_sum (map (\<lambda>a. fl_neg (np_sign (fl_sub b a))) x)) y)"
    by (subst np_sign_sub_swap) simp
  also have "\<dots> = fl_sum (map (\<lambda>b. fl_neg (fl_sum (map (\<lambda>a. np_sign (fl_sub b a)) x))) y)"
    by (simp add: fl_sum_neg)
  also have "\<dots> = fl_neg (fl_sum (map (\<lambda>b. fl_sum (map (\<lambda>a. np_sign (fl_sub b a)) x)) y))"
    by (rule fl_sum_neg)
  finally show ?thesis by (simp add: comp_def)
qed

lemma fl_sum_Fin: "fl_sum (map Fin rs) = Fin (sum_list rs)"
  by (induction rs) (simp_all add: fl_sum_Nil fl_sum_Cons)

lemma fl_sum_Fin_map: "fl_sum (map (\<lambda>x. Fin (f x)) xs) = Fin (sum_list (map f xs))"
  by (induction xs) (simp_all add: fl_sum_Nil fl_sum_Cons)

lemma all_Fin_map: "(\<forall>a \<in> set xs. \<exists>r. a = Fin r) \<Longrightarrow> \<exists>rs. xs = map Fin rs"
proof (induction xs)
  case Nil
  show ?case by simp
next
  case (Cons a xs)
  then obtain r rs where "a = Fin r" "xs = map Fin rs" by auto
  then have "a # xs = map Fin (r # rs)" by simp
  then show ?case by (rule exI)
qed


section \<open>The empirical p-value\<close>

lemma finite_samples_all:
  "\<forall>s \<in> set null_samples. \<exists>v. s = Some v \<and> v \<noteq> NaN
   \<Longrightarrow> finite_samples null_samples = map the null_samples"
  unfolding finite_samples_def by (induction null_samples) auto

text \<open>
  C5, as the spec states it, read on three null samples equal to the real value \<open>1\<close>:
  all three samples count as extreme, so the p-value is \<open>(3 + 1) / (3 + 1) = 1\<close> and
  not \<open>1 / (3 + 1)\<close>.
\<close>

theorem C5_counterexample:
  "empirical_p (Some (Fin 1)) [Some (Fin 1), Some (Fin 1), Some (Fin 1)]
     \<noteq> Inr (Some (Fin (1 / (3 + 1))))"
  by (simp add: empirical_p_def finite_samples_def np_isnan_def)

text \<open>
  C5 (amended): when the real statistic equals the absolute value of every one of the
  \<open>n \<ge> 1\<close> null samples (none of them missing or NaN), every sample is counted as at
  least as extreme as the real value and the empirical p-value is exactly
  \<open>(n + 1) / (n + 1) = 1\<close>.
\<close>

theorem C5_empirical_p_zero_variance:
  assumes "null_samples \<noteq> []"
    and "\<forall>s \<in> set null_samples. \<exists>v. s = Some v \<and> v \<noteq> NaN \<and> fl_abs v = r"
  shows "empirical_p (Some r) null_samples = Inr (Some (Fin 1))"
proof -
  obtain s0 where "s0 \<in> set null_samples"
    using assms(1) by (cases null_samples) auto
  then obtain v0 where "v0 \<noteq> NaN" "fl_abs v0 = r"
    using assms(2) by blast
  then have r: "r \<noteq> NaN"
    using fl_abs_NaN_iff by blast
  have arr: "finite_samples null_samples = map the null_samples"
    using assms(2) by (intro finite_samples_all) blast
  have "\<forall>a \<in> set (map the null_samples). fl_le (fl_abs r) (fl_abs a)"
  proof
    fix a assume "a \<in> set (map the null_samples)"
    then obtain s where "s \<in> set null_samples" "a = the s" by auto
    then have "fl_abs a = r" using assms(2) by fastforce
    then show "fl_le (fl_abs r) (fl_abs a)"
      using r by (metis fl_abs_idem fl_le_refl)
  qed
  then have ext: "filter (\<lambda>a. fl_le (fl_abs r) (fl_abs a)) (map the null_samples)
                  = map the null_samples"
    by (simp only: filter_True)
  show ?thesis
    using r assms(1) by (simp add: empirical_p_def np_isnan_def arr ext)
qed

theorem C5_empirical_p_zero_variance_witness:
  "empirical_p (Some (Fin 2)) [Some (Fin 2), Some (Fin (- 2))] = Inr (Some (Fin 1))"
  using C5_empirical_p_zero_variance [of "[Some (Fin 2), Some (Fin (- 2))]" "Fin 2"]
  by simp


section \<open>Cliff's delta\<close>

text \<open>
  C8: for all non-empty arrays \<open>x\<close> and \<open>y\<close>, \<open>cliffs_delta x y\<close> is the negation of
  \<open>cliffs_delta y x\<close>.  The equation is between float values; when every entry of both
  arrays is a finite number, both sides are finite numbers \<open>d\<close> and \<open>- d\<close>, so that
  Python's \<open>==\<close> holds as well.
\<close>

theorem C8_cliffs_delta_antisymmetric:
  assumes "x \<noteq> []" and "y \<noteq> []"
  shows "cliffs_delta x y = fl_neg (cliffs_delta y x) \<and>
         ((\<forall>a \<in> set x. \<exists>r. a = Fin r) \<and> (\<forall>b \<in> set y. \<exists>r. b = Fin r)
            \<longrightarrow> (\<exists>d. cliffs_delta x y = Fin d \<and> cliffs_delta y x = Fin (- d)))"
proof -
  have pos: "0 < real (length y * length x)"
    using assms by simp
  have len: "length x * length y = length y * length x"
    by (rule mult.commute)
  have xy: "cliffs_delta x y
            = fl_div (fl_sum (map fl_sum (map (\<lambda>a. map (\<lambda>b. np_sign (fl_sub a b)) y) x)))
                     (Fin (real (length y * length x)))"
    using assms unfolding cliffs_delta_def Let_def len by simp
  have yx: "cliffs_delta y x
            = fl_div (fl_sum (map fl_sum (map (\<lambda>b. map (\<lambda>a. np_sign (fl_sub b a)) x) y)))
                     (Fin (real (length y * length x)))"
    using assms unfolding cliffs_delta_def Let_def by simp
  have sw: "fl_sum (map fl_sum (map (\<lambda>a. map (\<lambda>b. np_sign (fl_sub a b)) y) x))
            = fl_neg (fl_sum (map fl_sum (map (\<lambda>b. map (\<lambda>a. np_sign (fl_sub b a)) x) y)))"
    by (rule sign_matrix_swap)
  have anti: "cliffs_delta x y = fl_neg (cliffs_delta y x)"
    by (simp only: xy yx sw fl_div_neg_pos [OF pos])
  have fin: "\<exists>d. cliffs_delta x y = Fin d \<and> cliffs_delta y x = Fin (- d)"
    if hx: "\<forall>a \<in> set x. \<exists>r. a = Fin r" and hy: "\<forall>b \<in> set y. \<exists>r. b = Fin r"
  proof -
    obtain xs ys where m: "x = map Fin xs" "y = map Fin ys"
      using all_Fin_map [OF hx] all_Fin_map [OF hy] by blast
    have "\<exists>d. cliffs_delta y x = Fin d"
      using pos unfolding yx unfolding m
      by (simp add: comp_def fl_sub_def fl_sum_Fin_map del: of_nat_mult)
    then obtain d where "cliffs_delta y x = Fin d" ..
    then show ?thesis
      using anti by (intro exI [of _ "- d"]) simp
  qed
  show ?thesis using anti fin by blast
qed

theorem C8_cliffs_delta_antisymmetric_witness:
  "cliffs_delta [Fin 1, Fin 5] [Fin 2, Fin 3, Fin 5] = Fin (- 1 / 6) \<and>
   cliffs_delta [Fin 2, Fin 3, Fin 5] [Fin 1, Fin 5] = Fin (1 / 6)"
  using C8_cliffs_delta_antisymmetric [of "[Fin 1, Fin 5]" "[Fin 2, Fin 3, Fin 5]"]
  by (simp add: cliffs_delta_def fl_sum_def fl_sub_def)


section \<open>Classifier evaluation\<close>










section \<open>Degenerate inputs of the null-model helpers\<close>

text \<open>
  C6 asks that degenerate statistical inputs give null results and never raise.  A NaN
  statistic (an empty comparison group) is handled: both helpers return \<open>None\<close>.
  But on a table with a single class the classifier is skipped, its accuracy is
  \<open>None\<close>, and that \<open>None\<close> is the real statistic passed to \<open>_empirical_p\<close> and
  \<open>_z_score\<close>: both call \<open>np.isnan\<close> on it before testing for \<open>None\<close> and raise
  \<open>TypeError\<close>.
\<close>

theorem C6_null_model_raises_on_skipped_classifier:
  "metric_snapshot sk [(1, 2, 3, 4), (2, 3, 4, 5)] [''d'', ''d'']
     = Inr [(''delta_e2_p_vs_df'', Some NaN), (''delta_e5_df_vs_sp'', Some NaN),
            (''delta_e7_df_vs_sp'', Some NaN), (''classifier_accuracy'', None)]
   \<and> empirical_p (Some NaN) null_samples = Inr None
   \<and> z_score (Some NaN) null_samples = Inr None
   \<and> empirical_p None null_samples = Inl TypeError
   \<and> z_score None null_samples = Inl TypeError"
proof -
  have clf: "evaluate_classifier sk [(1, 2, 3, 4), (2, 3, 4, 5)] [''d'', ''d''] 0
             = Inr \<lparr>n_samples = 2, n_positive = 2, n_negative = 0, accuracy = None,
                    balanced_accuracy = None, roc_auc = None,
                    baseline_accuracy = Some (Fin 1), roc_curve_points = None\<rparr>"
    by (simp add: evaluate_classifier_def skip_classifier_def target_def)
  have snap: "metric_snapshot sk [(1, 2, 3, 4), (2, 3, 4, 5)] [''d'', ''d'']
     = Inr [(''delta_e2_p_vs_df'', Some NaN), (''delta_e5_df_vs_sp'', Some NaN),
            (''delta_e7_df_vs_sp'', Some NaN), (''classifier_accuracy'', None)]"
    unfolding metric_snapshot_def clf
    by (simp add: group_arrays_def cliffs_delta_def)
  show ?thesis
    unfolding snap by (simp add: empirical_p_def z_score_def np_isnan_def)
qed


section \<open>The prime-vector normalizer\<close>

lemma fl_sum4: "fl_sum [Fin a, Fin b, Fin c, Fin d] = Fin (a + b + c + d)"
  by (simp add: fl_sum_def)

lemma normalize_primes_present:
  assumes "abs_e2_mean row = Some a" "abs_e3_mean row = Some b"
          "abs_e5_mean row = Some c" "abs_e7_mean row = Some d"
  shows "normalize_primes row =
           (if \<bar>a\<bar> + \<bar>b\<bar> + \<bar>c\<bar> + \<bar>d\<bar> \<le> 0 then [Fin 0.25, Fin 0.25, Fin 0.25, Fin 0.25]
            else [Fin (\<bar>a\<bar> / (\<bar>a\<bar> + \<bar>b\<bar> + \<bar>c\<bar> + \<bar>d\<bar>)), Fin (\<bar>b\<bar> / (\<bar>a\<bar> + \<bar>b\<bar> + \<bar>c\<bar> + \<bar>d\<bar>)),
                  Fin (\<bar>c\<bar> / (\<bar>a\<bar> + \<bar>b\<bar> + \<bar>c\<bar> + \<bar>d\<bar>)), Fin (\<bar>d\<bar> / (\<bar>a\<bar> + \<bar>b\<bar> + \<bar>c\<bar> + \<bar>d\<bar>))])"
proof -
  define t where "t = \<bar>a\<bar> + \<bar>b\<bar> + \<bar>c\<bar> + \<bar>d\<bar>"
  have vec: "map fl_abs (map of_opt
               [abs_e2_mean row, abs_e3_mean row, abs_e5_mean row, abs_e7_mean row])
             = [Fin \<bar>a\<bar>, Fin \<bar>b\<bar>, Fin \<bar>c\<bar>, Fin \<bar>d\<bar>]"
    using assms by simp
  have s: "fl_sum [Fin \<bar>a\<bar>, Fin \<bar>b\<bar>, Fin \<bar>c\<bar>, Fin \<bar>d\<bar>] = Fin t"
    unfolding t_def by (rule fl_sum4)
  have "normalize_primes row =
          (if t \<le> 0 then [Fin 0.25, Fin 0.25, Fin 0.25, Fin 0.25]
           else [Fin (\<bar>a\<bar> / t), Fin (\<bar>b\<bar> / t), Fin (\<bar>c\<bar> / t), Fin (\<bar>d\<bar> / t)])"
    unfolding normalize_primes_def Let_def vec s by simp
  then show ?thesis unfolding t_def .
qed








section \<open>The tables are the per-row results\<close>

text \<open>
  \<open>aggregate_costs\<close> and \<open>infer_topologies\<close> run the loop body (\<open>row_costs\<close>,
  \<open>infer_row\<close>) on every row and collect the score records and the best records.
\<close>

lemma aggregate_costs_rows:
  "aggregate_costs carrier_df catalog lambda_noise use_noise
   = (concat (map (\<lambda>row. fst (row_costs carrier_df catalog lambda_noise use_noise row)) carrier_df),
      map (\<lambda>row. snd (row_costs carrier_df catalog lambda_noise use_noise row)) carrier_df)"
  by (simp add: aggregate_costs_def Let_def comp_def)

lemma infer_topologies_rows:
  assumes "infer_topologies carrier_df catalog params elements = Inr res"
  shows "\<exists>df xi_min xi_span. set df \<subseteq> set carrier_df \<and> df \<noteq> []
           \<and> fst res = concat (map (\<lambda>row. fst (infer_row params catalog xi_min xi_span row)) df)
           \<and> snd res = map (\<lambda>row. snd (infer_row params catalog xi_min xi_span row)) df"
proof -
  define df where "df = (case elements of
                  None \<Rightarrow> carrier_df
                | Some els \<Rightarrow>
                    if els = {} then carrier_df
                    else filter (\<lambda>r. carrier_element r \<in> els) carrier_df)"
  have sub: "set df \<subseteq> set carrier_df"
    unfolding df_def by (auto split: option.splits)
  have ne: "df \<noteq> []"
    using assms unfolding infer_topologies_def Let_def df_def [symmetric]
    by (auto split: if_splits)
  have "\<exists>xi_min xi_span.
          res = (concat (map (\<lambda>row. fst (infer_row params catalog xi_min xi_span row)) df),
                 map (\<lambda>row. snd (infer_row params catalog xi_min xi_span row)) df)"
    using assms ne unfolding infer_topologies_def Let_def df_def [symmetric]
    by (auto simp: comp_def)
  then obtain xi_min xi_span where
      "res = (concat (map (\<lambda>row. fst (infer_row params catalog xi_min xi_span row)) df),
              map (\<lambda>row. snd (infer_row params catalog xi_min xi_span row)) df)"
    by blast
  then have "set df \<subseteq> set carrier_df \<and> df \<noteq> []
           \<and> fst res = concat (map (\<lambda>row. fst (infer_row params catalog xi_min xi_span row)) df)
           \<and> snd res = map (\<lambda>row. snd (infer_row params catalog xi_min xi_span row)) df"
    using sub ne by simp
  then show ?thesis by blast
qed

section \<open>The best topology is the first arg-min\<close>

lemma fl_lt_trans: "fl_lt a b \<Longrightarrow> fl_lt b c \<Longrightarrow> fl_lt a c"
  by (cases a; cases b; cases c) simp_all

lemma fl_le_lt_trans: "fl_le a b \<Longrightarrow> fl_lt b c \<Longrightarrow> fl_lt a c"
  by (cases a; cases b; cases c) simp_all

lemma fl_lt_irrefl: "\<not> fl_lt a a"
  by (cases a) simp_all

lemma fl_lt_imp_le: "fl_lt a b \<Longrightarrow> fl_le a b"
  by (cases a; cases b) simp_all



text \<open>The scan keeps the first arg-min of the costs seen so far.\<close>

lemma scan_first_argmin:
  assumes "xs \<noteq> []"
  shows "\<exists>i. first_argmin (map cost xs) i \<and>
             foldl (\<lambda>b x. update_best b (cost x) (tag x)) None xs
               = Some (cost (xs ! i), tag (xs ! i))"
  using assms
proof (induction xs rule: rev_induct)
  case Nil
  then show ?case by simp
next
  case (snoc x xs)
  show ?case
  proof (cases "xs = []")
    case True
    have "first_argmin (map cost [x]) 0"
      by (simp add: first_argmin_def fl_lt_irrefl)
    then show ?thesis
      using True by (intro exI [of _ 0]) (simp add: update_best_def)
  next
    case False
    then obtain i where i: "first_argmin (map cost xs) i"
      and f: "foldl (\<lambda>b x. update_best b (cost x) (tag x)) None xs
                = Some (cost (xs ! i), tag (xs ! i))"
      using snoc.IH by blast
    have il: "i < length xs"
      and nolt: "\<And>j. j < length xs \<Longrightarrow> \<not> fl_lt (cost (xs ! j)) (cost (xs ! i))"
      and nole: "\<And>j. j < i \<Longrightarrow> \<not> fl_le (cost (xs ! j)) (cost (xs ! i))"
      using i by (auto simp: first_argmin_def)
    show ?thesis
    proof (cases "fl_lt (cost x) (cost (xs ! i))")
      case True
      have "first_argmin (map cost (xs @ [x])) (length xs)"
        unfolding first_argmin_def
      proof (intro conjI allI impI)
        show "length xs < length (map cost (xs @ [x]))" by simp
      next
        fix j assume "j < length (map cost (xs @ [x]))"
        then consider "j < length xs" | "j = length xs" by fastforce
        then show "\<not> fl_lt (map cost (xs @ [x]) ! j) (map cost (xs @ [x]) ! length xs)"
        proof cases
          case 1
          then show ?thesis
            using nolt [OF 1] True fl_lt_trans by (auto simp: nth_append)
        next
          case 2
          then show ?thesis by (simp add: nth_append fl_lt_irrefl)
        qed
      next
        fix j assume j: "j < length xs"
        then show "\<not> fl_le (map cost (xs @ [x]) ! j) (map cost (xs @ [x]) ! length xs)"
          using nolt [OF j] True fl_le_lt_trans by (auto simp: nth_append)
      qed
      then show ?thesis
        using True f by (intro exI [of _ "length xs"]) (simp add: update_best_def nth_append)
    next
      case False
      have "first_argmin (map cost (xs @ [x])) i"
        unfolding first_argmin_def
      proof (intro conjI allI impI)
        show "i < length (map cost (xs @ [x]))" using il by simp
      next
        fix j assume "j < length (map cost (xs @ [x]))"
        then consider "j < length xs" | "j = length xs" by fastforce
        then show "\<not> fl_lt (map cost (xs @ [x]) ! j) (map cost (xs @ [x]) ! i)"
        proof cases
          case 1
          then show ?thesis using nolt [OF 1] il by (simp add: nth_append)
        next
          case 2
          then show ?thesis using False il by (simp add: nth_append)
        qed
      next
        fix j assume j: "j < i"
        then show "\<not> fl_le (map cost (xs @ [x]) ! j) (map cost (xs @ [x]) ! i)"
          using nole [OF j] il by (simp add: nth_append)
      qed
      then show ?thesis
        using False f il by (intro exI [of _ i]) (simp add: update_best_def nth_append)
    qed
  qed
qed


text \<open>The inner loops, component by component.\<close>

lemma foldl_topo_step:
  "foldl (topo_step row e_norm xi_n q lam un) (records, best_e, best_total) catalog
   = (records @ map (score_of row e_norm xi_n q lam un) catalog,
      foldl (\<lambda>b t. update_best b (C_e (score_of row e_norm xi_n q lam un t)) (topology_id t))
            best_e catalog,
      foldl (\<lambda>b t. update_best b (C_total (score_of row e_norm xi_n q lam un t)) (topology_id t))
            best_total catalog)"
  by (induction catalog arbitrary: records best_e best_total)
     (simp_all add: topo_step_def Let_def)

lemma foldl_resonant_step:
  "foldl (resonant_step params row) (records, best, totals) catalog
   = (records @ map (resonant_score_of params row) catalog,
      foldl (\<lambda>b t. update_best b (rs_C_total (resonant_score_of params row t))
                                  (resonant_score_of params row t))
            best catalog,
      totals @ map (\<lambda>t. rs_C_total (resonant_score_of params row t)) catalog)"
  by (induction catalog arbitrary: records best totals)
     (simp_all add: resonant_step_def Let_def)

lemma s_topology_id_score_of [simp]:
  "s_topology_id (score_of row e_norm xi_n q lam un t) = topology_id t"
  by (simp add: score_of_def split: prod.splits)

lemma rs_topology_id_score_of [simp]:
  "rs_topology_id (resonant_score_of params row t) = topology_id t"
  by (simp add: resonant_score_of_def Let_def split: prod.splits)







section \<open>Cost terms of the simple formulation\<close>

lemma np_clip_unit:
  "\<exists>c. np_clip (Fin v) (Fin 0) (Fin 1) = Fin c \<and> 0 \<le> c \<and> c \<le> 1"
  by (simp add: np_clip_def)

lemma column_stats_Fin:
  assumes "Some x \<in> set col"
  shows "\<exists>mn sp. column_min col = Fin mn \<and> column_span col = Fin sp \<and> 0 < sp"
proof -
  have "x \<in> set (dropna col)"
    using assms unfolding dropna_def by (induction col) auto
  then have ne: "dropna col \<noteq> []" by auto
  obtain m where m: "series_min (dropna col) = Fin m"
    using ne by (simp add: series_min_def)
  obtain M where M: "series_max (dropna col) = Fin M"
    using ne by (simp add: series_max_def)
  have mn: "column_min col = Fin m"
    by (simp add: column_min_def m)
  have sp: "column_span col = Fin (if M - m < 1 / 1000000 then 1 / 1000000 else M - m)"
    by (simp add: column_span_def m M fl_sub_def py_max2_def)
  have "0 < (if M - m < 1 / 1000000 then 1 / 1000000 else M - m)"
    by simp
  then show ?thesis
    using mn sp by blast
qed

lemma scaled_unit:
  assumes "column_min col = Fin mn" "column_span col = Fin sp" "0 < sp"
  shows "\<exists>v. fl_div (fl_sub (Fin x) (column_min col)) (column_span col) = Fin v"
  using assms by (simp add: fl_sub_def)

lemma q_lock_unit:
  assumes "row \<in> set df"
  shows "\<exists>q. (case delta_N_median row of
                None \<Rightarrow> Fin 0
              | Some delta_N \<Rightarrow>
                  np_clip (fl_sub (Fin 1)
                             (fl_div (fl_sub (Fin delta_N) (column_min (map delta_N_median df)))
                                     (column_span (map delta_N_median df))))
                          (Fin 0) (Fin 1)) = Fin q \<and> 0 \<le> q \<and> q \<le> 1"
proof (cases "delta_N_median row")
  case None
  then show ?thesis by simp
next
  case (Some d)
  then have "Some d \<in> set (map delta_N_median df)"
    using assms by (metis image_eqI set_map)
  then obtain mn sp where st: "column_min (map delta_N_median df) = Fin mn"
      "column_span (map delta_N_median df) = Fin sp" "0 < sp"
    using column_stats_Fin by blast
  obtain v where "fl_sub (Fin 1) (fl_div (fl_sub (Fin d) (Fin mn)) (Fin sp)) = Fin v"
    using st(3) by (simp add: fl_sub_def)
  then show ?thesis
    using Some st np_clip_unit [of v] by simp
qed

lemma xi_norm_unit:
  assumes "row \<in> set df"
  shows "\<exists>x. (case xi_ext_median row of
                None \<Rightarrow> Fin 0
              | Some xi_ext \<Rightarrow>
                  np_clip (fl_div (fl_sub (Fin xi_ext) (column_min (map xi_ext_median df)))
                                  (column_span (map xi_ext_median df)))
                          (Fin 0) (Fin 1)) = Fin x \<and> 0 \<le> x \<and> x \<le> 1"
proof (cases "xi_ext_median row")
  case None
  then show ?thesis by simp
next
  case (Some d)
  then have "Some d \<in> set (map xi_ext_median df)"
    using assms by (metis image_eqI set_map)
  then obtain mn sp where st: "column_min (map xi_ext_median df) = Fin mn"
      "column_span (map xi_ext_median df) = Fin sp" "0 < sp"
    using column_stats_Fin by blast
  obtain v where "fl_div (fl_sub (Fin d) (Fin mn)) (Fin sp) = Fin v"
    using st(3) by (simp add: fl_sub_def)
  then show ?thesis
    using Some st np_clip_unit [of v] by simp
qed

lemma compute_ce_Fin:
  "\<exists>ce. compute_ce (map Fin vs) topo = Fin ce \<and> 0 \<le> ce"
proof -
  have "map (\<lambda>x. fl_sq (fl_abs x)) (map (\<lambda>(v, wt). fl_sub v (Fin wt)) (zip (map Fin vs) (w topo)))
        = map (\<lambda>p. Fin (\<bar>fst p - snd p\<bar> * \<bar>fst p - snd p\<bar>)) (zip vs (w topo))"
    by (simp add: zip_map1 comp_def split_def fl_sq_def fl_sub_def)
  then have "fl_sum (map (\<lambda>x. fl_sq (fl_abs x))
                     (map (\<lambda>(v, wt). fl_sub v (Fin wt)) (zip (map Fin vs) (w topo))))
             = Fin (sum_list (map (\<lambda>p. \<bar>fst p - snd p\<bar> * \<bar>fst p - snd p\<bar>) (zip vs (w topo))))"
    by (simp only: fl_sum_Fin_map)
  moreover have "0 \<le> sum_list (map (\<lambda>p. \<bar>fst p - snd p\<bar> * \<bar>fst p - snd p\<bar>) (zip vs (w topo)))"
    by (rule sum_list_nonneg) auto
  ultimately show ?thesis
    by (simp add: compute_ce_def np_linalg_norm_def fl_sq_def)
qed

lemma normalize_primes_Fin:
  assumes "abs_e2_mean row \<noteq> None" "abs_e3_mean row \<noteq> None"
          "abs_e5_mean row \<noteq> None" "abs_e7_mean row \<noteq> None"
  shows "\<exists>vs. normalize_primes row = map Fin vs"
proof -
  obtain a b c d where "abs_e2_mean row = Some a" "abs_e3_mean row = Some b"
      "abs_e5_mean row = Some c" "abs_e7_mean row = Some d"
    using assms by auto
  from normalize_primes_present [OF this]
  have "normalize_primes row = map Fin [1 / 4, 1 / 4, 1 / 4, 1 / 4]
        \<or> normalize_primes row
           = map Fin [\<bar>a\<bar> / (\<bar>a\<bar> + \<bar>b\<bar> + \<bar>c\<bar> + \<bar>d\<bar>), \<bar>b\<bar> / (\<bar>a\<bar> + \<bar>b\<bar> + \<bar>c\<bar> + \<bar>d\<bar>),
                      \<bar>c\<bar> / (\<bar>a\<bar> + \<bar>b\<bar> + \<bar>c\<bar> + \<bar>d\<bar>), \<bar>d\<bar> / (\<bar>a\<bar> + \<bar>b\<bar> + \<bar>c\<bar> + \<bar>d\<bar>)]"
    by (simp split: if_splits)
  then show ?thesis by blast
qed

lemma pair_costs_ordered:
  assumes "0 \<le> x" "x \<le> 1" "0 \<le> q" "q \<le> 1" "0 \<le> lam" "0 \<le> noise_sensitivity topo"
  shows "\<exists>ce ct. pair_costs (map Fin vs) (Fin x) (Fin q) lam un topo
                    = (Fin ce, (if un then Fin (x * noise_sensitivity topo * (1 - q)) else Fin 0),
                       Fin ct) \<and> 0 \<le> ce \<and> ce \<le> ct"
proof -
  obtain ce where ce: "compute_ce (map Fin vs) topo = Fin ce" "0 \<le> ce"
    using compute_ce_Fin by blast
  have "0 \<le> x * noise_sensitivity topo * (1 - q)"
    using assms by simp
  then have "0 \<le> lam * (x * noise_sensitivity topo * (1 - q))"
    using assms(5) by simp
  then show ?thesis
    using ce by (simp add: pair_costs_def Let_def fl_sub_def)
qed

text \<open>
  C3 (amended): in the simple formulation, for every row of the table whose four
  fingerprint means are present, every \<open>lambda_noise \<ge> 0\<close> and every catalog whose noise
  sensitivities are non-negative, every score record of the row has finite costs with
  \<open>C_total \<ge> C_e \<ge> 0\<close>, whether the noise term is used or not.
\<close>

theorem C3_cost_terms_ordered:
  assumes "row \<in> set carrier_df"
    and "abs_e2_mean row \<noteq> None" "abs_e3_mean row \<noteq> None"
        "abs_e5_mean row \<noteq> None" "abs_e7_mean row \<noteq> None"
    and "0 \<le> lambda_noise"
    and "\<forall>t \<in> set catalog. 0 \<le> noise_sensitivity t"
  shows "\<forall>s \<in> set (fst (row_costs carrier_df catalog lambda_noise use_noise row)).
           \<exists>ce ct. C_e s = Fin ce \<and> C_total s = Fin ct \<and> 0 \<le> ce \<and> ce \<le> ct"
proof -
  obtain q where q: "(case delta_N_median row of
                None \<Rightarrow> Fin 0
              | Some delta_N \<Rightarrow>
                  np_clip (fl_sub (Fin 1)
                             (fl_div (fl_sub (Fin delta_N) (column_min (map delta_N_median carrier_df)))
                                     (column_span (map delta_N_median carrier_df))))
                          (Fin 0) (Fin 1)) = Fin q" "0 \<le> q" "q \<le> 1"
    using q_lock_unit [OF assms(1)] by blast
  obtain x where x: "(case xi_ext_median row of
                None \<Rightarrow> Fin 0
              | Some xi_ext \<Rightarrow>
                  np_clip (fl_div (fl_sub (Fin xi_ext) (column_min (map xi_ext_median carrier_df)))
                                  (column_span (map xi_ext_median carrier_df)))
                          (Fin 0) (Fin 1)) = Fin x" "0 \<le> x" "x \<le> 1"
    using xi_norm_unit [OF assms(1)] by blast
  obtain vs where vs: "normalize_primes row = map Fin vs"
    using normalize_primes_Fin [OF assms(2-5)] by blast
  have scores: "fst (row_costs carrier_df catalog lambda_noise use_noise row)
                = map (score_of row (map Fin vs) (Fin x) (Fin q) lambda_noise use_noise) catalog"
    unfolding row_costs_def Let_def q(1) x(1) vs foldl_topo_step by simp
  show ?thesis
  proof
    fix s assume "s \<in> set (fst (row_costs carrier_df catalog lambda_noise use_noise row))"
    then obtain t where t: "t \<in> set catalog"
        and s: "s = score_of row (map Fin vs) (Fin x) (Fin q) lambda_noise use_noise t"
      unfolding scores by auto
    have "0 \<le> noise_sensitivity t" using assms(7) t by blast
    from pair_costs_ordered [OF x(2,3) q(2,3) assms(6) this, of vs use_noise]
    obtain ce ct where "pair_costs (map Fin vs) (Fin x) (Fin q) lambda_noise use_noise t
                    = (Fin ce, (if use_noise then Fin (x * noise_sensitivity t * (1 - q)) else Fin 0),
                       Fin ct)" "0 \<le> ce" "ce \<le> ct"
      by blast
    then show "\<exists>ce ct. C_e s = Fin ce \<and> C_total s = Fin ct \<and> 0 \<le> ce \<and> ce \<le> ct"
      unfolding s score_of_def by simp
  qed
qed


lemmas eval_simple = row_costs_def aggregate_costs_def catalog3_def row_e2_def blank_row_def
  topo_step_def score_of_def
  pair_costs_def compute_ce_def np_linalg_norm_def normalize_primes_def fl_sum_def
  fl_sq_def fl_sub_def update_best_def column_min_def column_span_def dropna_def
  series_min_def series_max_def py_max2_def np_clip_def Let_def

text \<open>
  C3, as stated for all hyperparameter values and every element: with
  \<open>lambda_noise = -1\<close> the row with the larger noise indicator gets \<open>C_e = 0\<close> and
  \<open>C_total = -1\<close> against the first topology, so \<open>C_total \<ge> C_e\<close> fails; and a row with
  a missing fingerprint mean gets \<open>C_e = NaN\<close>, for which \<open>C_e \<ge> 0\<close> is false.
\<close>

theorem C3_counterexample:
  "C_e (fst (aggregate_costs [row_e2 (Some 0), row_e2 (Some 1)] catalog3 (- 1) True) ! 3) = Fin 0
   \<and> C_total (fst (aggregate_costs [row_e2 (Some 0), row_e2 (Some 1)] catalog3 (- 1) True) ! 3)
       = Fin (- 1)
   \<and> \<not> fl_le (Fin 0) (Fin (- 1))
   \<and> C_e (fst (aggregate_costs [blank_row\<lparr>abs_e2_mean := Some 1\<rparr>] catalog3 (1 / 2) True) ! 0)
       = NaN
   \<and> \<not> fl_le (Fin 0) NaN"
  by (simp add: eval_simple)

theorem C3_cost_terms_ordered_witness:
  "row_e2 (Some 1) \<in> set [row_e2 (Some 0), row_e2 (Some 1)]
   \<and> map C_e (fst (row_costs [row_e2 (Some 0), row_e2 (Some 1)] catalog3 (1 / 2) True
                      (row_e2 (Some 1))))
       = [Fin 0, Fin 2, Fin (3 / 4)]
   \<and> map C_total (fst (row_costs [row_e2 (Some 0), row_e2 (Some 1)] catalog3 (1 / 2) True
                          (row_e2 (Some 1))))
       = [Fin (1 / 2), Fin (5 / 2), Fin (5 / 4)]"
proof -
  have ev: "map C_e (fst (row_costs [row_e2 (Some 0), row_e2 (Some 1)] catalog3 (1 / 2) True
                      (row_e2 (Some 1))))
       = [Fin 0, Fin 2, Fin (3 / 4)]
   \<and> map C_total (fst (row_costs [row_e2 (Some 0), row_e2 (Some 1)] catalog3 (1 / 2) True
                          (row_e2 (Some 1))))
       = [Fin (1 / 2), Fin (5 / 2), Fin (5 / 4)]"
    by (simp add: eval_simple)
  have hyp: "\<forall>t \<in> set catalog3. 0 \<le> noise_sensitivity t"
    by (simp add: catalog3_def)
  have means: "abs_e2_mean (row_e2 (Some 1)) \<noteq> None" "abs_e3_mean (row_e2 (Some 1)) \<noteq> None"
      "abs_e5_mean (row_e2 (Some 1)) \<noteq> None" "abs_e7_mean (row_e2 (Some 1)) \<noteq> None"
    by (simp_all add: row_e2_def)
  have mem: "row_e2 (Some 1) \<in> set [row_e2 (Some 0), row_e2 (Some 1)]"
    by simp
  show ?thesis
    using C3_cost_terms_ordered [OF mem means _ hyp, of "1 / 2" True] ev mem
    by simp
qed


section \<open>Confidence of the resonant formulation\<close>

lemma foldl_py_max2_Fin:
  "\<exists>m. foldl py_max2 (Fin a) (map Fin rs) = Fin m \<and> m \<in> set (a # rs)
       \<and> (\<forall>r \<in> set (a # rs). r \<le> m)"
proof (induction rs arbitrary: a)
  case Nil
  show ?case by simp
next
  case (Cons r rs)
  obtain m where m: "foldl py_max2 (Fin (max a r)) (map Fin rs) = Fin m"
      "m \<in> set (max a r # rs)" "\<forall>x \<in> set (max a r # rs). x \<le> m"
    using Cons.IH [of "max a r"] by blast
  have step: "py_max2 (Fin a) (Fin r) = Fin (max a r)"
    by (simp add: py_max2_def max_def)
  have "m \<in> set (a # r # rs)"
    using m(2) by (auto simp: max_def split: if_splits)
  moreover have "\<forall>x \<in> set (a # r # rs). x \<le> m"
    using m(3) by auto
  ultimately show ?case
    using m(1) step by simp
qed

lemma py_max_Fin:
  assumes "rs \<noteq> []"
  shows "\<exists>m. py_max (map Fin rs) = Fin m \<and> m \<in> set rs \<and> (\<forall>r \<in> set rs. r \<le> m)"
proof -
  obtain a rs' where rs: "rs = a # rs'" using assms by (cases rs) auto
  show ?thesis
    using foldl_py_max2_Fin [of a rs'] unfolding rs py_max_def by simp
qed

lemma infer_row_unfold:
  "infer_row params catalog xi_min xi_span row =
     (map (resonant_score_of params row) catalog,
      \<lparr>rb_carrier_element = carrier_element row, rb_block = block row,
       rb_xi_norm = np_clip (case xi_ext_median row of
                               Some x \<Rightarrow> fl_div (fl_sub (Fin x) xi_min) xi_span
                             | None \<Rightarrow> Fin 0) (Fin 0) (Fin 1),
       rb_Q_lock = q_lock_of (delta_N_median row),
       rb_best_topology = map_option (\<lambda>(t, b). rs_topology_id b)
          (foldl (\<lambda>b t. update_best b (rs_C_total (resonant_score_of params row t))
                                      (resonant_score_of params row t)) None catalog),
       rb_C_total_min = map_option fst
          (foldl (\<lambda>b t. update_best b (rs_C_total (resonant_score_of params row t))
                                      (resonant_score_of params row t)) None catalog),
       rb_C_e_min = map_option (\<lambda>(t, b). rs_C_e b)
          (foldl (\<lambda>b t. update_best b (rs_C_total (resonant_score_of params row t))
                                      (resonant_score_of params row t)) None catalog),
       rb_C_N_min = map_option (\<lambda>(t, b). rs_C_N b)
          (foldl (\<lambda>b t. update_best b (rs_C_total (resonant_score_of params row t))
                                      (resonant_score_of params row t)) None catalog),
       rb_C_xi_min = map_option (\<lambda>(t, b). rs_C_xi b)
          (foldl (\<lambda>b t. update_best b (rs_C_total (resonant_score_of params row t))
                                      (resonant_score_of params row t)) None catalog),
       rb_A_best = map_option (\<lambda>(t, b). rs_A_T b)
          (foldl (\<lambda>b t. update_best b (rs_C_total (resonant_score_of params row t))
                                      (resonant_score_of params row t)) None catalog),
       confidence =
         (if catalog = []
             \<or> fl_eq (py_max (map (\<lambda>t. rs_C_total (resonant_score_of params row t)) catalog))
                      (Fin 0)
          then Fin 0
          else case foldl (\<lambda>b t. update_best b (rs_C_total (resonant_score_of params row t))
                                      (resonant_score_of params row t)) None catalog of
                 None \<Rightarrow> Fin 0
               | Some (best_total, b) \<Rightarrow>
                   fl_sub (Fin 1)
                     (fl_div best_total
                        (py_max (map (\<lambda>t. rs_C_total (resonant_score_of params row t))
                                     catalog))))\<rparr>)"
  unfolding infer_row_def Let_def foldl_resonant_step by simp

lemma fst_infer_row:
  "fst (infer_row params catalog xi_min xi_span row) = map (resonant_score_of params row) catalog"
  by (simp add: infer_row_unfold)

lemma totals_infer_row:
  "map rs_C_total (fst (infer_row params catalog xi_min xi_span row))
   = map (\<lambda>t. rs_C_total (resonant_score_of params row t)) catalog"
  by (simp add: fst_infer_row comp_def)

lemma rb_C_total_min_infer_row:
  "rb_C_total_min (snd (infer_row params catalog xi_min xi_span row))
   = map_option fst
       (foldl (\<lambda>b t. update_best b (rs_C_total (resonant_score_of params row t))
                                   (resonant_score_of params row t)) None catalog)"
  by (simp add: infer_row_unfold)

lemma confidence_infer_row:
  "confidence (snd (infer_row params catalog xi_min xi_span row))
   = (if catalog = []
         \<or> fl_eq (py_max (map (\<lambda>t. rs_C_total (resonant_score_of params row t)) catalog))
                  (Fin 0)
      then Fin 0
      else case foldl (\<lambda>b t. update_best b (rs_C_total (resonant_score_of params row t))
                                  (resonant_score_of params row t)) None catalog of
             None \<Rightarrow> Fin 0
           | Some (best_total, b) \<Rightarrow>
               fl_sub (Fin 1)
                 (fl_div best_total
                    (py_max (map (\<lambda>t. rs_C_total (resonant_score_of params row t))
                                 catalog))))"
  by (simp add: infer_row_unfold)

text \<open>
  C2 (amended): for every element whose total costs over the catalog are all finite and
  non-negative, the reported confidence is a number in \<open>[0, 1]\<close>; it is \<open>0\<close> when the
  catalog is empty, when the maximal total cost is zero and when all topologies have the
  same total cost; otherwise it is \<open>1 - best_total / max_total\<close>, with \<open>best_total\<close> the
  reported \<open>C_total_min\<close> and \<open>max_total\<close> the maximum of the element's total costs.
  The hypothesis holds for non-negative \<open>lambda_N\<close> and \<open>lambda_xi\<close>, non-zero scales
  and at least one observed fingerprint component (\<open>resonant_totals_finite\<close>).
\<close>

theorem C2_confidence:
  assumes "\<forall>s \<in> set (fst (infer_row params catalog xi_min xi_span row)).
             \<exists>t. rs_C_total s = Fin t \<and> 0 \<le> t"
  shows "\<exists>c. confidence (snd (infer_row params catalog xi_min xi_span row)) = Fin c
           \<and> 0 \<le> c \<and> c \<le> 1
           \<and> (catalog = [] \<longrightarrow> c = 0)
           \<and> (py_max (map rs_C_total (fst (infer_row params catalog xi_min xi_span row))) = Fin 0
                \<longrightarrow> c = 0)
           \<and> ((\<forall>s \<in> set (fst (infer_row params catalog xi_min xi_span row)).
                \<forall>s' \<in> set (fst (infer_row params catalog xi_min xi_span row)).
                   rs_C_total s = rs_C_total s') \<longrightarrow> c = 0)
           \<and> (catalog \<noteq> []
                \<and> py_max (map rs_C_total (fst (infer_row params catalog xi_min xi_span row)))
                    \<noteq> Fin 0
                \<longrightarrow> (\<exists>b m. rb_C_total_min (snd (infer_row params catalog xi_min xi_span row))
                              = Some (Fin b)
                         \<and> py_max (map rs_C_total
                                     (fst (infer_row params catalog xi_min xi_span row))) = Fin m
                         \<and> c = 1 - b / m))"
proof (cases "catalog = []")
  case True
  then show ?thesis
    by (simp add: confidence_infer_row)
next
  case False
  let ?sc = "resonant_score_of params row"
  let ?ts = "map (\<lambda>t. rs_C_total (?sc t)) catalog"
  have hyp: "\<exists>r. rs_C_total (?sc t) = Fin r \<and> 0 \<le> r" if "t \<in> set catalog" for t
    using assms that unfolding fst_infer_row by simp
  have fin: "\<forall>c \<in> set ?ts. \<exists>t. c = Fin t"
    using hyp by auto
  then obtain rs where rs: "?ts = map Fin rs"
    using all_Fin_map by blast
  have "length ?ts = length (map Fin rs)"
    by (simp only: rs)
  then have len: "length rs = length catalog"
    by simp
  have rsne: "rs \<noteq> []" using False len by auto
  have nonneg: "\<forall>r \<in> set rs. 0 \<le> r"
  proof
    fix r assume "r \<in> set rs"
    then have "Fin r \<in> set ?ts" unfolding rs by simp
    then obtain t where "t \<in> set catalog" "rs_C_total (?sc t) = Fin r" by auto
    then show "0 \<le> r" using hyp [of t] by simp
  qed
  obtain m where m: "py_max ?ts = Fin m" "m \<in> set rs" "\<forall>r \<in> set rs. r \<le> m"
    using py_max_Fin [OF rsne] unfolding rs by blast
  obtain i where i: "first_argmin ?ts i"
    and fi: "foldl (\<lambda>b t. update_best b (rs_C_total (?sc t)) (?sc t)) None catalog
             = Some (rs_C_total (?sc (catalog ! i)), ?sc (catalog ! i))"
    using scan_first_argmin [OF False, of "\<lambda>t. rs_C_total (?sc t)" ?sc] by blast
  have il: "i < length rs" using i len by (simp add: first_argmin_def)
  have "?ts ! i = map Fin rs ! i"
    by (simp only: rs)
  then have bi: "rs_C_total (?sc (catalog ! i)) = Fin (rs ! i)"
    using il len by simp
  have least: "rs ! i \<le> rs ! j" if "j < length rs" for j
  proof -
    have "j < length ?ts" using that len by simp
    then have "\<not> fl_lt (?ts ! j) (?ts ! i)"
      using i unfolding first_argmin_def by blast
    then show ?thesis
      unfolding rs using that il by simp
  qed
  have b0: "0 \<le> rs ! i" using nonneg il by simp
  obtain jm where jm: "jm < length rs" "rs ! jm = m"
    using m(2) unfolding in_set_conv_nth by blast
  have bm: "rs ! i \<le> m"
    using least [OF jm(1)] jm(2) by simp
  have m0: "0 \<le> m" using b0 bm by simp
  define c where "c = (if m = 0 then 0 else 1 - rs ! i / m)"
  have conf: "confidence (snd (infer_row params catalog xi_min xi_span row)) = Fin c"
    unfolding confidence_infer_row m(1) fi bi
    using False m0 by (simp add: fl_eq_def fl_sub_def c_def)
  have range: "0 \<le> c \<and> c \<le> 1"
    using b0 bm m0 by (simp add: c_def)
  have scores: "map rs_C_total (fst (infer_row params catalog xi_min xi_span row)) = ?ts"
    by (rule totals_infer_row)
  have eq0: "c = 0"
    if "\<forall>s \<in> set (fst (infer_row params catalog xi_min xi_span row)).
        \<forall>s' \<in> set (fst (infer_row params catalog xi_min xi_span row)).
           rs_C_total s = rs_C_total s'"
  proof -
    have "Fin m \<in> set ?ts"
      unfolding rs using m(2) by simp
    then obtain t where t: "t \<in> set catalog" "rs_C_total (?sc t) = Fin m"
      by auto
    have ci: "catalog ! i \<in> set catalog"
      using il len by simp
    have "?sc t \<in> set (fst (infer_row params catalog xi_min xi_span row))"
         "?sc (catalog ! i) \<in> set (fst (infer_row params catalog xi_min xi_span row))"
      unfolding fst_infer_row using t(1) ci by simp_all
    then have "rs_C_total (?sc (catalog ! i)) = rs_C_total (?sc t)"
      using that by blast
    then have "rs ! i = m"
      unfolding bi t(2) by simp
    then show ?thesis by (simp add: c_def)
  qed
  have tot: "rb_C_total_min (snd (infer_row params catalog xi_min xi_span row))
             = Some (Fin (rs ! i))"
    by (simp add: rb_C_total_min_infer_row fi bi)
  show ?thesis
  proof (rule exI [of _ c], intro conjI impI)
    show "confidence (snd (infer_row params catalog xi_min xi_span row)) = Fin c" by (rule conf)
    show "0 \<le> c" "c \<le> 1" using range by simp_all
    show "c = 0" if "catalog = []" using that False by simp
    show "c = 0"
      if "py_max (map rs_C_total (fst (infer_row params catalog xi_min xi_span row))) = Fin 0"
      using that unfolding scores m(1) by (simp add: c_def)
    show "c = 0"
      if "\<forall>s \<in> set (fst (infer_row params catalog xi_min xi_span row)).
          \<forall>s' \<in> set (fst (infer_row params catalog xi_min xi_span row)).
             rs_C_total s = rs_C_total s'"
      using that by (rule eq0)
    show "\<exists>b m. rb_C_total_min (snd (infer_row params catalog xi_min xi_span row)) = Some (Fin b)
             \<and> py_max (map rs_C_total (fst (infer_row params catalog xi_min xi_span row))) = Fin m
             \<and> c = 1 - b / m"
      if h: "catalog \<noteq> []
          \<and> py_max (map rs_C_total (fst (infer_row params catalog xi_min xi_span row))) \<noteq> Fin 0"
    proof -
      have "m \<noteq> 0" using h unfolding scores m(1) by simp
      then have "c = 1 - rs ! i / m" by (simp add: c_def)
      then show ?thesis
        using tot m(1) scores by auto
    qed
  qed
qed


lemmas eval_resonant = infer_row_def infer_topologies_def resonant_step_def resonant_score_of_def
  catalog3_def row13_def row_e2_def
  blank_row_def default_params_def prime_vector_def prime_entry_def fit_amplitude_def
  masked_def np_dot_def fl_sum_def fl_sq_def fl_sub_def update_best_def q_lock_of_def
  xi_sim_of_def n_sim_of_def dict_get_def COMPLEXITY_def N_SCALE_def np_clip_def
  py_max_def py_max2_def fl_eq_def dropna_def series_min_def series_max_def signed_inf_def
  Let_def

text \<open>
  C2, as stated for every element: with \<open>lambda_xi = -2\<close> the total costs of the row are
  \<open>-200, -100, -125\<close> and the confidence is \<open>1 - (-200) / (-100) = -1\<close>; and for a row
  with no observed fingerprint component every total cost is \<open>inf\<close>, identical over the
  catalog, and the confidence is \<open>1 - inf / inf\<close>, which is NaN and not \<open>0\<close>.
\<close>

theorem C2_counterexample:
  "map_sum id (map confidence \<circ> snd)
     (infer_topologies [row_e2 (Some (121 / 20))] catalog3
        (default_params\<lparr>lambda_xi := - 2\<rparr>) None)
     = Inr [Fin (- 1)]
   \<and> map_sum id (map rs_C_total \<circ> fst)
       (infer_topologies [blank_row] catalog3 default_params None)
     = Inr [PInf, PInf, PInf]
   \<and> map_sum id (map confidence \<circ> snd)
       (infer_topologies [blank_row] catalog3 default_params None)
     = Inr [NaN]"
  by (simp add: eval_resonant)

theorem C2_confidence_witness:
  "map rs_C_total (fst (infer_row default_params catalog3 (Fin 0) (Fin 1) row13))
     = [Fin 900, Fin 100, Fin 600]
   \<and> confidence (snd (infer_row default_params catalog3 (Fin 0) (Fin 1) row13)) = Fin (8 / 9)"
proof -
  have ev: "infer_row default_params catalog3 (Fin 0) (Fin 1) row13 = X \<Longrightarrow>
     map rs_C_total (fst X) = [Fin 900, Fin 100, Fin 600]
     \<and> confidence (snd X) = Fin (8 / 9)
     \<and> (\<forall>s \<in> set (fst X). \<exists>t. rs_C_total s = Fin t \<and> 0 \<le> t)" for X
    by (auto simp add: eval_resonant)
  have hyp: "\<forall>s \<in> set (fst (infer_row default_params catalog3 (Fin 0) (Fin 1) row13)).
               \<exists>t. rs_C_total s = Fin t \<and> 0 \<le> t"
    using ev [OF refl] by blast
  show ?thesis
    using C2_confidence [OF hyp] ev [OF refl] by simp
qed


section \<open>Block labels in the element table\<close>

lemmas eval_data = aggregate_element_table_def filter_included_rows_def mat_def group_of_def
  dropna_unique_def PRIME_COLUMNS_def prime_values_def series_mean_def series_median_def
  series_std_def

lemma remdups_singleton_iff: "remdups ys = [b] \<longleftrightarrow> set ys = {b}"
proof
  assume "remdups ys = [b]"
  then have "set (remdups ys) = {b}" by simp
  then show "set ys = {b}" by simp
next
  assume h: "set ys = {b}"
  have "length (remdups ys) = card (set ys)"
    by (rule length_remdups_card_conv)
  then have "length (remdups ys) = 1" using h by simp
  then obtain c where c: "remdups ys = [c]"
    by (cases "remdups ys") auto
  then have "set (remdups ys) = {c}" by simp
  then have "c = b" using h by auto
  then show "remdups ys = [b]" using c by simp
qed

lemma set_somes: "set [x. Some x \<leftarrow> col] = {x. Some x \<in> set col}"
  by (induction col) (auto split: option.splits)

lemma dropna_unique_singleton_iff:
  "dropna_unique col = [b] \<longleftrightarrow> {x. Some x \<in> set col} = {b}"
proof -
  have "dropna_unique col = [b] \<longleftrightarrow> remdups (rev [x. Some x \<leftarrow> col]) = [b]"
    unfolding dropna_unique_def by (metis rev_singleton_conv)
  also have "\<dots> \<longleftrightarrow> set (rev [x. Some x \<leftarrow> col]) = {b}"
    by (rule remdups_singleton_iff)
  also have "\<dots> \<longleftrightarrow> {x. Some x \<in> set col} = {b}"
    by (simp only: set_rev set_somes)
  finally show ?thesis .
qed

text \<open>The loop succeeds exactly when every key has a single block label.\<close>

lemma aggregate_groups_ok:
  assumes "\<forall>k \<in> set keys. \<exists>b. dropna_unique (map carrier_block (group_of f k)) = [b]"
  shows "\<exists>table ws. aggregate_groups f keys (recs, w0) = Inr (recs @ table, w0 @ ws)
           \<and> map element table = keys
           \<and> (\<forall>r \<in> set table.
                 dropna_unique (map carrier_block (group_of f (element r))) = [el_block r])"
  using assms
proof (induction keys arbitrary: recs w0)
  case Nil
  show ?case by simp
next
  case (Cons k keys)
  obtain b where b: "dropna_unique (map carrier_block (group_of f k)) = [b]"
    using Cons.prems by auto
  define r where "r = \<lparr>element = k, el_block = b, el_n_materials = length (group_of f k),
                 prime_stats =
                   map (\<lambda>(prime, col). (series_mean (prime_values (group_of f k) col),
                                         series_median (prime_values (group_of f k) col),
                                         series_std (prime_values (group_of f k) col)))
                       PRIME_COLUMNS\<rparr>"
  define ws where "ws =
               [''No valid values for '' @ prime @ '' in element '' @ k @ ''; filling with NaN.''.
                  (prime, col) \<leftarrow> PRIME_COLUMNS, prime_values (group_of f k) col = []]"
  have step: "aggregate_groups f (k # keys) (recs, w0)
              = aggregate_groups f keys (recs @ [r], w0 @ ws)"
    by (simp add: b r_def ws_def Let_def)
  obtain table ws' where t: "aggregate_groups f keys (recs @ [r], w0 @ ws)
                              = Inr ((recs @ [r]) @ table, (w0 @ ws) @ ws')"
      "map element table = keys"
      "\<forall>x \<in> set table. dropna_unique (map carrier_block (group_of f (element x))) = [el_block x]"
    using Cons.IH [of "recs @ [r]" "w0 @ ws"] Cons.prems by auto
  have "aggregate_groups f (k # keys) (recs, w0) = Inr (recs @ (r # table), w0 @ (ws @ ws'))"
    using step t(1) by simp
  moreover have "map element (r # table) = k # keys"
    using t(2) by (simp add: r_def)
  moreover have "\<forall>x \<in> set (r # table).
                   dropna_unique (map carrier_block (group_of f (element x))) = [el_block x]"
    using t(3) b by (simp add: r_def)
  ultimately have "aggregate_groups f (k # keys) (recs, w0)
                     = Inr (recs @ (r # table), w0 @ (ws @ ws'))
           \<and> map element (r # table) = k # keys
           \<and> (\<forall>x \<in> set (r # table).
                 dropna_unique (map carrier_block (group_of f (element x))) = [el_block x])"
    by simp
  then show ?case
    by (rule_tac x = "r # table" in exI, rule_tac x = "ws @ ws'" in exI)
qed

lemma aggregate_groups_fail:
  assumes "k \<in> set keys"
    and "\<forall>b. dropna_unique (map carrier_block (group_of f k)) \<noteq> [b]"
  shows "aggregate_groups f keys (recs, w0) = Inl ValueError"
  using assms(1)
proof (induction keys arbitrary: recs w0)
  case Nil
  then show ?case by simp
next
  case (Cons a keys)
  show ?case
  proof (cases "\<exists>b. dropna_unique (map carrier_block (group_of f a)) = [b]")
    case False
    then show ?thesis
      by (simp add: Let_def split: list.splits)
  next
    case True
    then obtain b where b: "dropna_unique (map carrier_block (group_of f a)) = [b]"
      by blast
    have "a \<noteq> k" using True assms(2) by auto
    then have "k \<in> set keys" using Cons.prems by simp
    then show ?thesis
      using Cons.IH by (simp add: b Let_def)
  qed
qed

lemma included_fields:
  assumes "m \<in> set (filter_included_rows df)"
  shows "\<exists>el blk. mat_carrier_element m = Some el \<and> carrier_block m = Some blk"
  using assms by (auto simp: filter_included_rows_def)

lemma keys_set:
  "set (sort (remdups [el. Some el \<leftarrow> map mat_carrier_element F]))
   = {el. \<exists>m \<in> set F. mat_carrier_element m = Some el}"
  by (auto simp: set_somes)

lemma group_blocks:
  "{x. Some x \<in> set (map carrier_block (group_of F k))}
   = {blk. \<exists>m \<in> set F. mat_carrier_element m = Some k \<and> carrier_block m = Some blk}"
proof (intro equalityI subsetI)
  fix x assume "x \<in> {x. Some x \<in> set (map carrier_block (group_of F k))}"
  then obtain m where "m \<in> set (group_of F k)" "carrier_block m = Some x"
    by auto
  then show "x \<in> {blk. \<exists>m \<in> set F. mat_carrier_element m = Some k
                            \<and> carrier_block m = Some blk}"
    by (auto simp: group_of_def)
next
  fix x assume "x \<in> {blk. \<exists>m \<in> set F. mat_carrier_element m = Some k
                            \<and> carrier_block m = Some blk}"
  then obtain m where m: "m \<in> set F" "mat_carrier_element m = Some k"
      "carrier_block m = Some x" by blast
  then have "m \<in> set (group_of F k)" by (simp add: group_of_def)
  then have "carrier_block m \<in> set (map carrier_block (group_of F k))" by simp
  then show "x \<in> {x. Some x \<in> set (map carrier_block (group_of F k))}"
    using m(3) by simp
qed

text \<open>
  C9 (amended): with \<open>F\<close> the included materials, aggregation fails with an error
  whenever two included materials of one carrier element carry different block labels;
  when at least one material is included and the materials of every carrier element
  agree on the block label, aggregation succeeds, the table has one row per carrier
  element in sorted order, and each row carries the block label of its materials.
\<close>

theorem C9_block_label_unique:
  fixes df :: "material list"
  defines "F \<equiv> filter_included_rows df"
  shows "((\<exists>m1 \<in> set F. \<exists>m2 \<in> set F. mat_carrier_element m1 = mat_carrier_element m2
              \<and> carrier_block m1 \<noteq> carrier_block m2)
          \<longrightarrow> aggregate_element_table df = Inl ValueError)
       \<and> (F \<noteq> [] \<and> (\<forall>m1 \<in> set F. \<forall>m2 \<in> set F.
                          mat_carrier_element m1 = mat_carrier_element m2
                          \<longrightarrow> carrier_block m1 = carrier_block m2)
          \<longrightarrow> (\<exists>table warnings.
                 aggregate_element_table df = Inr (table, warnings)
                 \<and> map element table = sort (remdups [el. Some el \<leftarrow> map mat_carrier_element F])
                 \<and> (\<forall>r \<in> set table. \<forall>m \<in> set F.
                       mat_carrier_element m = Some (element r)
                       \<longrightarrow> carrier_block m = Some (el_block r))))"
proof (intro conjI impI)
  let ?keys = "sort (remdups [el. Some el \<leftarrow> map mat_carrier_element F])"
  assume "\<exists>m1 \<in> set F. \<exists>m2 \<in> set F. mat_carrier_element m1 = mat_carrier_element m2
              \<and> carrier_block m1 \<noteq> carrier_block m2"
  then obtain m1 m2 where m: "m1 \<in> set F" "m2 \<in> set F"
      "mat_carrier_element m1 = mat_carrier_element m2" "carrier_block m1 \<noteq> carrier_block m2"
    by blast
  obtain k b1 where k: "mat_carrier_element m1 = Some k" "carrier_block m1 = Some b1"
    using included_fields m(1) unfolding F_def by blast
  obtain b2 where b2: "carrier_block m2 = Some b2"
    using included_fields m(2) unfolding F_def by blast
  have ne: "F \<noteq> []" using m(1) by auto
  have kin: "k \<in> set ?keys"
    unfolding keys_set using m(1) k(1) by blast
  have two: "b1 \<in> {x. Some x \<in> set (map carrier_block (group_of F k))}"
            "b2 \<in> {x. Some x \<in> set (map carrier_block (group_of F k))}"
    unfolding group_blocks using m k b2 by auto
  have diff: "b1 \<noteq> b2" using m(4) k(2) b2 by simp
  have "\<forall>b. dropna_unique (map carrier_block (group_of F k)) \<noteq> [b]"
  proof (intro allI notI)
    fix b assume "dropna_unique (map carrier_block (group_of F k)) = [b]"
    then have "{x. Some x \<in> set (map carrier_block (group_of F k))} = {b}"
      by (simp only: dropna_unique_singleton_iff)
    then have "b1 \<in> {b}" "b2 \<in> {b}"
      using two by simp_all
    then show False using diff by simp
  qed
  from aggregate_groups_fail [OF kin this]
  show "aggregate_element_table df = Inl ValueError"
    using ne unfolding aggregate_element_table_def Let_def F_def by simp
next
  let ?keys = "sort (remdups [el. Some el \<leftarrow> map mat_carrier_element F])"
  assume h: "F \<noteq> [] \<and> (\<forall>m1 \<in> set F. \<forall>m2 \<in> set F.
                          mat_carrier_element m1 = mat_carrier_element m2
                          \<longrightarrow> carrier_block m1 = carrier_block m2)"
  have same: "carrier_block m1 = carrier_block m2"
    if "m1 \<in> set F" "m2 \<in> set F" "mat_carrier_element m1 = mat_carrier_element m2"
    for m1 m2
    using h that by blast
  have single: "\<exists>b. dropna_unique (map carrier_block (group_of F k)) = [b]"
    if kk: "k \<in> set ?keys" for k
  proof -
    obtain m where m: "m \<in> set F" "mat_carrier_element m = Some k"
      using kk unfolding keys_set by blast
    obtain b where b: "carrier_block m = Some b"
      using included_fields m(1) unfolding F_def by blast
    have "{x. Some x \<in> set (map carrier_block (group_of F k))} = {b}"
      unfolding group_blocks
    proof (intro equalityI subsetI)
      fix x assume "x \<in> {blk. \<exists>m \<in> set F. mat_carrier_element m = Some k
                                 \<and> carrier_block m = Some blk}"
      then obtain m' where "m' \<in> set F" "mat_carrier_element m' = Some k"
          "carrier_block m' = Some x" by blast
      then have "carrier_block m' = carrier_block m"
        using same [of m' m] m by simp
      then show "x \<in> {b}" using b \<open>carrier_block m' = Some x\<close> by simp
    next
      fix x assume "x \<in> {b}"
      then show "x \<in> {blk. \<exists>m \<in> set F. mat_carrier_element m = Some k
                                 \<and> carrier_block m = Some blk}"
        using m b by blast
    qed
    then have "dropna_unique (map carrier_block (group_of F k)) = [b]"
      by (simp only: dropna_unique_singleton_iff)
    then show ?thesis ..
  qed
  then have "\<forall>k \<in> set ?keys. \<exists>b. dropna_unique (map carrier_block (group_of F k)) = [b]"
    by blast
  from aggregate_groups_ok [OF this, of "[]" "[]"]
  obtain table ws where t: "aggregate_groups F ?keys ([], []) = Inr (table, ws)"
      "map element table = ?keys"
      "\<forall>r \<in> set table. dropna_unique (map carrier_block (group_of F (element r))) = [el_block r]"
    by auto
  have res: "aggregate_element_table df = Inr (table, ws)"
    using h t(1) unfolding aggregate_element_table_def Let_def F_def by simp
  have blocks: "carrier_block m = Some (el_block r)"
    if r: "r \<in> set table" and mF: "m \<in> set F"
      and mr: "mat_carrier_element m = Some (element r)" for r m
  proof -
    have "dropna_unique (map carrier_block (group_of F (element r))) = [el_block r]"
      using t(3) r by blast
    then have one: "{x. Some x \<in> set (map carrier_block (group_of F (element r)))}
                    = {el_block r}"
      by (simp only: dropna_unique_singleton_iff)
    obtain b where b: "carrier_block m = Some b"
      using included_fields mF unfolding F_def by blast
    have "b \<in> {x. Some x \<in> set (map carrier_block (group_of F (element r)))}"
      unfolding group_blocks using mF mr b by blast
    then have "b \<in> {el_block r}"
      unfolding one .
    then show ?thesis using b by simp
  qed
  show "\<exists>table warnings.
          aggregate_element_table df = Inr (table, warnings)
          \<and> map element table = ?keys
          \<and> (\<forall>r \<in> set table. \<forall>m \<in> set F.
                mat_carrier_element m = Some (element r)
                \<longrightarrow> carrier_block m = Some (el_block r))"
    using res t(2) blocks by blast
qed

text \<open>
  C9, as stated: a table whose only material is excluded has no carrier element with
  more than one block label, yet aggregation raises \<open>ValueError\<close> because no row is
  included.
\<close>

theorem C9_counterexample:
  "aggregate_element_table [(mat ''Fe'' ''d'')\<lparr>include_study04 := 0\<rparr>] = Inl ValueError
   \<and> filter_included_rows [(mat ''Fe'' ''d'')\<lparr>include_study04 := 0\<rparr>] = []"
  by (simp add: eval_data)

theorem C9_block_label_unique_witness:
  "aggregate_element_table [mat ''Fe'' ''d'', mat ''Al'' ''p'', mat ''Fe'' ''p'']
     = Inl ValueError
   \<and> map_sum id (map (\<lambda>r. (element r, el_block r, el_n_materials r)) \<circ> fst)
       (aggregate_element_table [mat ''Fe'' ''d'', mat ''Al'' ''p'', mat ''Fe'' ''d''])
     = Inr [(''Al'', ''p'', 2 - 1), (''Fe'', ''d'', 2)]"
  using C9_block_label_unique [of "[mat ''Fe'' ''d'', mat ''Al'' ''p'', mat ''Fe'' ''p'']"]
        C9_block_label_unique [of "[mat ''Fe'' ''d'', mat ''Al'' ''p'', mat ''Fe'' ''d'']"]
  by (simp add: eval_data)


section \<open>When the total costs are finite and non-negative\<close>

text \<open>
  With non-negative weights \<open>lambda_N\<close> and \<open>lambda_xi\<close>, non-zero scales and at least
  one observed fingerprint component, every total cost of \<open>infer_topologies\<close> is a
  finite non-negative number.
\<close>

lemma masked_map: "masked msk (map f xs) = map f (masked msk xs)"
proof -
  have "zip msk (map f xs) = map (\<lambda>(m, x). (m, f x)) (zip msk xs)"
    by (simp add: zip_map2)
  then show ?thesis
    by (simp add: masked_def filter_map comp_def split_def)
qed

lemma masked_self: "masked (map P xs) xs = filter P xs"
  by (induction xs) (simp_all add: masked_def)

lemma fl_sum_zip_Fin:
  "fl_sum (map (\<lambda>(x, y). Fin (f x y)) zs) = Fin (sum_list (map (\<lambda>(x, y). f x y) zs))"
  using fl_sum_Fin_map [of "\<lambda>p. f (fst p) (snd p)" zs] by (simp add: split_def)

lemma np_dot_Fin:
  "np_dot (map Fin a) (map Fin b) = Fin (sum_list (map (\<lambda>(x, y). x * y) (zip a b)))"
proof -
  have "map (\<lambda>(x, y). fl_mul x y) (zip (map Fin a) (map Fin b))
        = map (\<lambda>(x, y). Fin (x * y)) (zip a b)"
    by (simp add: zip_map_map split_def)
  then show ?thesis
    unfolding np_dot_def by (simp only: fl_sum_zip_Fin)
qed

lemma prime_vector_entries: "\<forall>e \<in> set (prime_vector row). e = NaN \<or> (\<exists>r. e = Fin r)"
  by (simp add: prime_vector_def prime_entry_def split: option.splits)

lemma filter_not_NaN_Fin:
  assumes "\<forall>e \<in> set xs. e = NaN \<or> (\<exists>r. e = Fin r)"
  shows "\<exists>rs. filter (\<lambda>e. e \<noteq> NaN) xs = map Fin rs"
proof -
  have "\<forall>e \<in> set (filter (\<lambda>e. e \<noteq> NaN) xs). \<exists>r. e = Fin r"
    using assms by auto
  then show ?thesis by (rule all_Fin_map)
qed

lemma fit_amplitude_Fin:
  assumes "\<forall>e \<in> set e_obs. e = NaN \<or> (\<exists>r. e = Fin r)"
    and "\<exists>e \<in> set e_obs. e \<noteq> NaN"
    and "sig_e \<noteq> 0"
  shows "\<exists>A ce e_sim. fit_amplitude e_obs wv sig_e = (Fin A, Fin ce, e_sim) \<and> 0 \<le> ce"
proof -
  let ?msk = "map (\<lambda>e. e \<noteq> NaN) e_obs"
  have any: "list_ex id ?msk"
    using assms(2) by (auto simp: list_ex_iff)
  obtain es where es: "masked ?msk e_obs = map Fin es"
    using filter_not_NaN_Fin [OF assms(1)] by (auto simp: masked_self)
  have wm: "masked ?msk (map Fin wv) = map Fin (masked ?msk wv)"
    by (rule masked_map)
  obtain d where d: "np_dot (masked ?msk (map Fin wv)) (masked ?msk (map Fin wv)) = Fin d"
    unfolding wm np_dot_Fin by blast
  obtain n where n: "np_dot (map Fin es) (masked ?msk (map Fin wv)) = Fin n"
    unfolding wm np_dot_Fin by blast
  define a where "a = (if d \<le> 0 then 0 else n / d)"
  have A: "(if fl_le (Fin d) (Fin 0) then Fin 0 else fl_div (Fin n) (Fin d)) = Fin a"
    by (simp add: a_def)
  have sim: "map (\<lambda>x. fl_mul (Fin a) (Fin x)) wv = map Fin (map (\<lambda>x. a * x) wv)"
    by simp
  have msim: "masked ?msk (map (\<lambda>x. fl_mul (Fin a) (Fin x)) wv)
              = map Fin (masked ?msk (map (\<lambda>x. a * x) wv))"
    unfolding sim by (rule masked_map)
  have res: "map (\<lambda>(e, sim). fl_sq (fl_div (fl_sub e sim) (Fin sig_e)))
                 (zip (map Fin es) (map Fin (masked ?msk (map (\<lambda>x. a * x) wv))))
             = map (\<lambda>(e, s). Fin (((e - s) / sig_e) * ((e - s) / sig_e)))
                 (zip es (masked ?msk (map (\<lambda>x. a * x) wv)))"
    using assms(3) by (simp add: zip_map_map split_def fl_sq_def fl_sub_def)
  define ce where "ce = sum_list (map (\<lambda>(e, s). ((e - s) / sig_e) * ((e - s) / sig_e))
                                     (zip es (masked ?msk (map (\<lambda>x. a * x) wv))))"
  have ce0: "0 \<le> ce"
    unfolding ce_def by (rule sum_list_nonneg) (auto simp: split_def)
  have "fit_amplitude e_obs wv sig_e
        = (Fin a, Fin ce, map (\<lambda>x. fl_mul (Fin a) (Fin x)) wv)"
    unfolding fit_amplitude_def Let_def
    using any by (simp only: d n A msim es res fl_sum_zip_Fin ce_def if_False not_not simp_thms)
  then show ?thesis using ce0 by blast
qed

lemma q_lock_of_unit: "\<exists>q. q_lock_of d = Fin q \<and> 0 \<le> q \<and> q \<le> 1"
  by (cases d) (simp_all add: q_lock_of_def fl_sub_def np_clip_def)

lemma resonant_total_finite:
  assumes "0 \<le> lambda_N params" "0 \<le> lambda_xi params"
    and "sigma_e params \<noteq> 0" "sigma_N params \<noteq> 0" "sigma_xi params \<noteq> 0"
    and "\<exists>e \<in> set (prime_vector row). e \<noteq> NaN"
  shows "\<exists>t. rs_C_total (resonant_score_of params row topo) = Fin t \<and> 0 \<le> t"
proof -
  obtain A ce e_sim where fit:
      "fit_amplitude (prime_vector row) (w topo) (sigma_e params) = (Fin A, Fin ce, e_sim)"
      "0 \<le> ce"
    using fit_amplitude_Fin [OF prime_vector_entries assms(6) assms(3)] by blast
  obtain q where q: "q_lock_of (delta_N_median row) = Fin q"
    using q_lock_of_unit by blast
  obtain cn where cn: "(case (N_median row, n_sim_of (N_median row) (topology_id topo)) of
                       (Some n, Some ns) \<Rightarrow>
                         fl_sq (fl_div (fl_sub (Fin n) (Fin ns)) (Fin (sigma_N params)))
                     | _ \<Rightarrow> Fin 0) = Fin cn" "0 \<le> cn"
    using assms(4)
    by (cases "N_median row") (simp_all add: n_sim_of_def fl_sq_def fl_sub_def)
  obtain cx where cx: "(case xi_ext_median row of
                        Some x \<Rightarrow> fl_sq (fl_div (fl_sub (Fin x)
                                     (xi_sim_of (Fin q) (topology_id topo) params))
                                   (Fin (sigma_xi params)))
                      | None \<Rightarrow> Fin 0) = Fin cx" "0 \<le> cx"
    using assms(5)
    by (cases "xi_ext_median row") (simp_all add: xi_sim_of_def fl_sq_def fl_sub_def)
  have "rs_C_total (resonant_score_of params row topo)
        = Fin (ce + lambda_N params * cn + lambda_xi params * cx)"
    unfolding resonant_score_of_def Let_def fit q cn(1) cx(1) by simp
  moreover have "0 \<le> ce + lambda_N params * cn + lambda_xi params * cx"
    using fit(2) cn(2) cx(2) assms(1,2) by simp
  ultimately show ?thesis by blast
qed

lemma resonant_totals_finite:
  assumes "0 \<le> lambda_N params" "0 \<le> lambda_xi params"
    and "sigma_e params \<noteq> 0" "sigma_N params \<noteq> 0" "sigma_xi params \<noteq> 0"
    and "\<exists>e \<in> set (prime_vector row). e \<noteq> NaN"
  shows "\<forall>s \<in> set (fst (infer_row params catalog xi_min xi_span row)).
           \<exists>t. rs_C_total s = Fin t \<and> 0 \<le> t"
  unfolding fst_infer_row using resonant_total_finite [OF assms] by auto

end
